theory Spec2Isabelle
  imports Main "HOL-Library.Word" "HOL-Library.Signed_Division" "HOL-Library.Sublist"
begin

section \<open>Fixed-point numbers\<close>

text \<open>
  \<open>fxp.Int\<close> and \<open>fxp.Weight\<close> come from the fixed-point library the code imports,
  which is not among the sources. They are 64-bit signed numbers with four decimal
  places: the stored integer is the value times 10000. Addition and multiplication wrap
  around as Go's \<open>int64\<close> does, comparison is signed, and Go's \<open>/\<close> truncates towards
  zero. \<open>Div\<close> multiplies by 10000 and divides; \<open>Trunc\<close> divides by 10000 and multiplies
  back, which drops the decimal places towards zero.
\<close>

type_synonym int64 = "64 word"
type_synonym fxp_Int = "64 word"
type_synonym fxp_Weight = "64 word"

definition go_div :: "int64 \<Rightarrow> int64 \<Rightarrow> int64" where
  \<comment> \<open>Go's \<open>a / b\<close> on \<open>int64\<close>, for \<open>b \<noteq> 0\<close>.\<close>
  "go_div a b = word_of_int (sint a sdiv sint b)"

definition fxp_Multiplier :: fxp_Int where
  "fxp_Multiplier = 10000"

definition fxp_Min :: fxp_Int where
  \<comment> \<open>\<open>math.MinInt64\<close>, the sentinel of an undefined level.\<close>
  "fxp_Min = word_of_int (- (2 ^ 63))"

definition fxp_Two :: fxp_Int where "fxp_Two = 20000"
definition fxp_Three :: fxp_Int where "fxp_Three = 30000"
definition fxp_Five :: fxp_Int where "fxp_Five = 50000"
definition fxp_Twenty :: fxp_Int where "fxp_Twenty = 200000"

definition fxp_From :: "int64 \<Rightarrow> fxp_Int" where
  "fxp_From v = v * fxp_Multiplier"

definition fxp_Div :: "fxp_Int \<Rightarrow> fxp_Int \<Rightarrow> fxp_Int" where
  "fxp_Div f v = go_div (f * fxp_Multiplier) v"

definition fxp_Trunc :: "fxp_Int \<Rightarrow> fxp_Int" where
  "fxp_Trunc f = go_div f fxp_Multiplier * fxp_Multiplier"

definition fxp_Min_of :: "fxp_Int \<Rightarrow> fxp_Int \<Rightarrow> fxp_Int" where
  \<comment> \<open>The method \<open>f.Min(v)\<close>: the smaller of the two.\<close>
  "fxp_Min_of f v = (if f <s v then f else v)"

section \<open>Strings\<close>

text \<open>
  A Go string is a sequence of bytes. \<open>strings.Count\<close> and \<open>strings.Split\<close> are only
  called with the one-byte separator \<open>"@"\<close>, so the separator is a byte here.
  \<open>strings.ReplaceAll\<close> replaces the non-overlapping occurrences of \<open>old\<close> from left
  to right; it is only called with a pattern that starts with \<open>"@"\<close>, and the model
  leaves the text as it is for the empty pattern.
\<close>

primrec strings_Count :: "string \<Rightarrow> char \<Rightarrow> nat" where
  "strings_Count [] c = 0"
| "strings_Count (x # xs) c = (if x = c then Suc (strings_Count xs c) else strings_Count xs c)"

primrec strings_Split :: "string \<Rightarrow> char \<Rightarrow> string list" where
  "strings_Split [] c = [[]]"
| "strings_Split (x # xs) c =
     (if x = c then [] # strings_Split xs c
      else (case strings_Split xs c of
              [] \<Rightarrow> [[x]]
            | p # ps \<Rightarrow> (x # p) # ps))"

fun strings_ReplaceAll :: "string \<Rightarrow> string \<Rightarrow> string \<Rightarrow> string" where
  "strings_ReplaceAll [] old new = []"
| "strings_ReplaceAll (x # xs) old new =
     (if old \<noteq> [] \<and> prefix old (x # xs)
      then new @ strings_ReplaceAll (drop (length old) (x # xs)) old new
      else x # strings_ReplaceAll xs old new)"

fun strings_Contains :: "string \<Rightarrow> string \<Rightarrow> bool" where
  "strings_Contains [] sub = (sub = [])"
| "strings_Contains (x # xs) sub = (prefix sub (x # xs) \<or> strings_Contains xs sub)"

text \<open>
  \<open>strings.ToLower\<close> and \<open>strings.TrimSpace\<close> follow the Unicode tables, which are
  outside this development: they are parameters of the model (see \<open>env\<close> below). The
  versions below treat the ASCII letters and the ASCII white space only; the examples
  use them.
\<close>

definition ascii_ToLower :: "string \<Rightarrow> string" where
  "ascii_ToLower s =
     map (\<lambda>c. if 65 \<le> (of_char c :: nat) \<and> (of_char c :: nat) \<le> 90
               then char_of ((of_char c :: nat) + 32) else c) s"

definition ascii_isSpace :: "char \<Rightarrow> bool" where
  "ascii_isSpace c \<longleftrightarrow> (of_char c :: nat) \<in> {9, 10, 11, 12, 13, 32}"

definition ascii_TrimSpace :: "string \<Rightarrow> string" where
  "ascii_TrimSpace s = rev (dropWhile ascii_isSpace (rev (dropWhile ascii_isSpace s)))"

section \<open>Criteria\<close>

text \<open>
  Modelled from the spec: the comparison operators of a string criterion, a closed
  enumeration whose declaration is not among the sources (\<open>Is\<close>, \<open>IsNot\<close>, \<open>Contains\<close>,
  \<open>StartsWith\<close>, \<open>EndsWith\<close>, \<open>Any\<close>).
\<close>

datatype StringCompareType = Any | Is | IsNot | Contains | StartsWith | EndsWith

record criteria_String =
  Compare :: StringCompareType
  Qualifier :: string

text \<open>
  Modelled from the spec: the weight criterion, whose declaration and \<open>Matches\<close> method
  are not among the sources. It holds a comparison operator of a closed enumeration
  (\<open>AtLeast\<close>, \<open>AtMost\<close>, \<open>Equals\<close>, \<open>Any\<close>) and a qualifier; it compares the value
  against the qualifier in the value's natural ordering, and \<open>Any\<close> always matches.
\<close>

datatype NumericCompareType = AnyNumber | EqualsNumber | AtLeastNumber | AtMostNumber

record WeightCriteria =
  WeightCompare :: NumericCompareType
  WeightQualifier :: fxp_Weight

definition WeightCriteria_Matches :: "WeightCriteria \<Rightarrow> fxp_Weight \<Rightarrow> bool" where
  "WeightCriteria_Matches w v =
     (case WeightCompare w of
        AnyNumber \<Rightarrow> True
      | EqualsNumber \<Rightarrow> v = WeightQualifier w
      | AtLeastNumber \<Rightarrow> WeightQualifier w \<le>s v
      | AtMostNumber \<Rightarrow> v \<le>s WeightQualifier w)"

section \<open>What the code takes from outside\<close>

text \<open>
  The identifiers of the default types and of the feature keys, the translation
  function \<open>i18n.Text\<close>, the two Unicode string functions and the rendering of a weight
  criterion are declared elsewhere. The model takes them as parameters.
\<close>

record env =
  SkillID :: string
  ParryID :: string
  BlockID :: string
  DodgeID :: string
  SkillNameID :: string
  i18n_Text :: "string \<Rightarrow> string"
  strings_ToLower :: "string \<Rightarrow> string"
  strings_TrimSpace :: "string \<Rightarrow> string"
  WeightCriteria_String :: "WeightCriteria \<Rightarrow> string"

definition sample_env :: env where
  "sample_env = \<lparr>SkillID = ''skill'', ParryID = ''parry'', BlockID = ''block'',
     DodgeID = ''dodge'', SkillNameID = ''skill.name'', i18n_Text = (\<lambda>s. s),
     strings_ToLower = ascii_ToLower, strings_TrimSpace = ascii_TrimSpace,
     WeightCriteria_String = (\<lambda>w. ''matches'')\<rparr>"

section \<open>Nameables\<close>

text \<open>
  \<open>ExtractNameables\<close> only reads and writes single keys of its two maps, which are
  partial functions here; the updated \<open>m\<close> is returned.
\<close>

fun ExtractNameables_loop ::
  "nat \<Rightarrow> (string \<rightharpoonup> string) \<Rightarrow> nat \<Rightarrow> string list \<Rightarrow> (string \<rightharpoonup> string)
     \<Rightarrow> (string \<rightharpoonup> string)" where
  "ExtractNameables_loop count existing i [] m = m"
| "ExtractNameables_loop count existing i (one # parts) m =
     ExtractNameables_loop count existing (Suc i) parts
       (if i mod 2 = 1 \<and> i < count then
          (case existing one of
             Some v \<Rightarrow> m(one \<mapsto> v)
           | None \<Rightarrow> m(one \<mapsto> one))
        else m)"

definition ExtractNameables ::
  "string \<Rightarrow> (string \<rightharpoonup> string) \<Rightarrow> (string \<rightharpoonup> string) \<Rightarrow> (string \<rightharpoonup> string)" where
  "ExtractNameables str m existing =
     (let count = strings_Count str (CHR ''@'') in
      if count > 1
      then ExtractNameables_loop count existing 0 (strings_Split str (CHR ''@'')) m
      else m)"

text \<open>
  \<open>ApplyNameables\<close> ranges over the whole map, and Go leaves the order of every such
  loop open. The second argument is the list of the map's entries in the order this one
  execution of the loop visits them. Code that applies the same map more than once takes
  one list for each application; two lists are visiting orders of one map when
  \<open>same_map\<close> holds of them.
\<close>

fun ApplyNameables_loop :: "(string \<times> string) list \<Rightarrow> string \<Rightarrow> string" where
  "ApplyNameables_loop [] str = str"
| "ApplyNameables_loop ((k, v) # m) str =
     ApplyNameables_loop m (strings_ReplaceAll str (''@'' @ k @ ''@'') v)"

definition ApplyNameables :: "string \<Rightarrow> (string \<times> string) list \<Rightarrow> string" where
  "ApplyNameables str m =
     (if strings_Count str (CHR ''@'') > 1 then ApplyNameables_loop m str else str)"

section \<open>Texts made of tokens\<close>

text \<open>
  A text written as its pieces: a first text and then, for each token, its key and the
  text that follows it. \<open>tokens_text\<close> writes the tokens out with their markers.
  \<open>separated K\<close> says that no key and no text of the pieces holds a marker and that the
  text between two successive tokens is not a contiguous part of any key in \<open>K\<close>.
  \<open>token_text K str\<close> says that \<open>str\<close> can be written in such pieces.
\<close>

fun tokens_text :: "(string \<times> string) list \<Rightarrow> string" where
  "tokens_text [] = []"
| "tokens_text ((k, t) # rest) = ''@'' @ k @ ''@'' @ t @ tokens_text rest"

fun separated :: "string set \<Rightarrow> (string \<times> string) list \<Rightarrow> bool" where
  "separated K [] = True"
| "separated K ((k, t) # rest) =
     (CHR ''@'' \<notin> set k \<and> CHR ''@'' \<notin> set t
      \<and> (rest = [] \<or> (\<forall>key \<in> K. \<not> strings_Contains key t))
      \<and> separated K rest)"

definition token_text :: "string set \<Rightarrow> string \<Rightarrow> bool" where
  "token_text K str \<longleftrightarrow>
     (\<exists>t0 toks. str = t0 @ tokens_text toks \<and> CHR ''@'' \<notin> set t0 \<and> separated K toks)"

text \<open>
  Two entry lists are two visiting orders of one Go map when they hold the same
  entries and no key twice.
\<close>

definition same_map :: "(string \<times> string) list \<Rightarrow> (string \<times> string) list \<Rightarrow> bool" where
  "same_map m m' \<longleftrightarrow> distinct (map fst m) \<and> distinct (map fst m') \<and> set m = set m'"

text \<open>
  The texts on which \<open>ApplyNameables\<close> gives the same result in every visiting order
  of the map with the entries \<open>m\<close>: a text with at most one marker, and, when no key and
  no value holds a marker, a text made of tokens separated as above.
\<close>

definition order_free :: "(string \<times> string) list \<Rightarrow> string \<Rightarrow> bool" where
  "order_free m str \<longleftrightarrow>
     strings_Count str (CHR ''@'') \<le> 1
     \<or> ((\<forall>k \<in> fst ` set m. CHR ''@'' \<notin> set k) \<and> (\<forall>v \<in> snd ` set m. CHR ''@'' \<notin> set v)
        \<and> token_text (fst ` set m) str)"

text \<open>
  What substituting leaves of the tokens: \<open>residual m toks\<close> is the text that now comes
  before the first token left, and the tokens left, those whose key \<open>m\<close> does not hold,
  each with the text now following it. \<open>expand_tokens\<close> is the whole text.
\<close>

fun residual ::
  "(string \<rightharpoonup> string) \<Rightarrow> (string \<times> string) list \<Rightarrow> string \<times> (string \<times> string) list" where
  "residual m [] = ([], [])"
| "residual m ((k, t) # rest) =
     (case m k of
        Some v \<Rightarrow> (v @ t @ fst (residual m rest), snd (residual m rest))
      | None \<Rightarrow> ([], (k, t @ fst (residual m rest)) # snd (residual m rest)))"

fun expand_tokens :: "(string \<rightharpoonup> string) \<Rightarrow> (string \<times> string) list \<Rightarrow> string" where
  "expand_tokens m [] = []"
| "expand_tokens m ((k, t) # rest) =
     (case m k of Some v \<Rightarrow> v | None \<Rightarrow> ''@'' @ k @ ''@'') @ t @ expand_tokens m rest"

section \<open>WeaponBonus\<close>

text \<open>
  Modelled from the spec: \<open>weapon.SelectionType\<close>, a closed enumeration (\<open>ThisWeapon\<close>,
  \<open>WithName\<close>, \<open>WithRequiredSkill\<close>) whose declaration is not among the sources. A Go
  variable of the type can hold a number outside the enumeration: \<open>InvalidSelection\<close>.
\<close>

datatype SelectionType = WithRequiredSkill | ThisWeapon | WithName | InvalidSelection nat

text \<open>The fields \<open>FeatureMapKey\<close> reads, and two it does not (\<open>Percent\<close>, \<open>Amount\<close>).\<close>

record WeaponBonus =
  Percent :: bool
  SelectionType :: SelectionType
  NameCriteria :: criteria_String
  SpecializationCriteria :: criteria_String
  TagsCriteria :: criteria_String
  Amount :: fxp_Int

definition ThisWeaponID :: string where
  "ThisWeaponID = [CHR 0x01]"

definition WeaponNamedIDPrefix :: string where
  "WeaponNamedIDPrefix = ''weapon_named.''"

datatype fatal = InvalidSelectionType SelectionType

definition buildKey :: "WeaponBonus \<Rightarrow> string \<Rightarrow> string" where
  "buildKey w prfx =
     (if Compare (NameCriteria w) = Is
         \<and> (Compare (SpecializationCriteria w) = Any \<and> Compare (TagsCriteria w) = Any)
      then prfx @ ''/'' @ Qualifier (NameCriteria w)
      else prfx @ ''*'')"

text \<open>
  \<open>jot.Fatal\<close> ends the process: the left summand. The parameter \<open>prfx\<close> of
  \<open>buildKey\<close> is the source's \<open>prefix\<close>.
\<close>

definition FeatureMapKey :: "env \<Rightarrow> WeaponBonus \<Rightarrow> fatal + string" where
  "FeatureMapKey env w =
     (case SelectionType w of
        WithRequiredSkill \<Rightarrow> Inr (buildKey w (SkillNameID env))
      | ThisWeapon \<Rightarrow> Inr ThisWeaponID
      | WithName \<Rightarrow> Inr (buildKey w WeaponNamedIDPrefix)
      | InvalidSelection n \<Rightarrow> Inl (InvalidSelectionType (InvalidSelection n)))"

section \<open>Entity, skills and equipment\<close>

text \<open>
  The entity, its skills and its equipment are declared elsewhere. The records hold
  what the functions below read from them; a method the code calls is a field holding a
  function. A weight unit and an encumbrance level are numbered values of their
  enumerations. The entity pointer is taken to be non-nil. \<open>CalculateLevel\<close> is a
  function of the skill and the exclusion set; what it does to the entity beyond
  returning the level is not among the sources.
\<close>

type_synonym WeightUnit = nat
type_synonym encumbrance_Level = nat
type_synonym excludes = "string \<rightharpoonup> bool"

record Skill =
  LevelData_Level :: fxp_Int
  CalculateLevel :: "excludes \<Rightarrow> fxp_Int"

record SheetSettings =
  DefaultWeightUnits :: WeightUnit
  UseHalfStatDefaults :: bool

record Entity =
  ParryBonus :: fxp_Int
  BlockBonus :: fxp_Int
  SheetSettings :: SheetSettings
  SkillNamed :: "string \<Rightarrow> string \<Rightarrow> bool \<Rightarrow> excludes \<Rightarrow> Skill list"
  EncumbranceLevel :: "bool \<Rightarrow> encumbrance_Level"
  Dodge :: "encumbrance_Level \<Rightarrow> int64"
  ResolveAttributeCurrent :: "string \<Rightarrow> fxp_Int"

record Equipment =
  Container :: bool
  ExtendedWeight :: "bool \<Rightarrow> WeightUnit \<Rightarrow> fxp_Weight"
  AdjustedWeight :: "bool \<Rightarrow> WeightUnit \<Rightarrow> fxp_Weight"

text \<open>
  Modelled from the spec: \<open>SheetSettingsFor\<close> is not among the sources; the entity
  exposes its sheet settings, which hold the default weight units and the behaviour
  toggles.
\<close>

definition SheetSettingsFor :: "Entity \<Rightarrow> SheetSettings" where
  "SheetSettingsFor entity = SheetSettings entity"

section \<open>ContainedWeightPrereq\<close>

text \<open>
  The \<open>exclude\<close> argument has the type \<open>any\<close>: it holds a pointer to an equipment item,
  a value of another type, or nothing.
\<close>

datatype any_value = NilValue | EquipmentValue Equipment | OtherValue

text \<open>The fields \<open>Satisfied\<close> reads.\<close>

record ContainedWeightPrereq =
  Has :: bool
  WeightCriteria :: WeightCriteria

text \<open>
  Modelled from the spec: \<open>HasText\<close> is not among the sources; the phrase is
  \<open>"has"\<close> or \<open>"does not have"\<close>, chosen by its argument.
\<close>

definition HasText :: "env \<Rightarrow> bool \<Rightarrow> string" where
  "HasText env has = (if has then i18n_Text env ''has'' else i18n_Text env ''does not have'')"

text \<open>
  The tooltip is a pointer to a byte buffer or \<open>nil\<close>: \<open>Some\<close> of the buffer's content,
  or \<open>None\<close>. \<open>Satisfied\<close> returns its result with the buffer as it has left it.
\<close>

definition Satisfied ::
  "env \<Rightarrow> ContainedWeightPrereq \<Rightarrow> Entity \<Rightarrow> any_value \<Rightarrow> string option \<Rightarrow> string
     \<Rightarrow> bool \<times> string option" where
  "Satisfied env c entity exclude tooltip prfx =
     (let satisfied = False;
          satisfied =
            (case exclude of
               EquipmentValue eqp \<Rightarrow>
                 (let satisfied = \<not> Container eqp in
                  if \<not> satisfied then
                    (let units = DefaultWeightUnits (SheetSettingsFor entity);
                         weight = ExtendedWeight eqp False units - AdjustedWeight eqp False units
                     in WeightCriteria_Matches (WeightCriteria c) weight)
                  else satisfied)
             | _ \<Rightarrow> satisfied);
          satisfied = (if \<not> Has c then \<not> satisfied else satisfied);
          tooltip =
            (if \<not> satisfied then
               (case tooltip of
                  Some buffer \<Rightarrow>
                    Some (buffer @ prfx @ HasText env (Has c)
                            @ i18n_Text env '' a contained weight which ''
                            @ WeightCriteria_String env (WeightCriteria c))
                | None \<Rightarrow> None)
             else tooltip)
      in (satisfied, tooltip))"

section \<open>SkillDefault\<close>

record SkillDefault =
  DefaultType :: string
  Name :: string
  Specialization :: string
  Modifier :: fxp_Int
  Level :: fxp_Int
  AdjLevel :: fxp_Int
  Points :: fxp_Int

subsection \<open>Resolving the level\<close>

definition skillBasedDefaultTypes :: "env \<Rightarrow> (string \<rightharpoonup> bool)" where
  "skillBasedDefaultTypes env =
     [SkillID env \<mapsto> True, ParryID env \<mapsto> True, BlockID env \<mapsto> True]"

text \<open>Reading a Go map at a key it does not hold gives the zero value, \<open>false\<close>.\<close>

definition DefaultTypeIsSkillBased :: "env \<Rightarrow> string \<Rightarrow> bool" where
  "DefaultTypeIsSkillBased env skillDefaultType =
     (case skillBasedDefaultTypes env
             (strings_ToLower env (strings_TrimSpace env skillDefaultType)) of
        Some b \<Rightarrow> b
      | None \<Rightarrow> False)"

definition SkillBased :: "env \<Rightarrow> SkillDefault \<Rightarrow> bool" where
  "SkillBased env s =
     (case skillBasedDefaultTypes env
             (strings_ToLower env (strings_TrimSpace env (DefaultType s))) of
        Some b \<Rightarrow> b
      | None \<Rightarrow> False)"

definition Type :: "SkillDefault \<Rightarrow> string" where
  "Type s = DefaultType s"

definition NameWithReplacements :: "SkillDefault \<Rightarrow> (string \<times> string) list \<Rightarrow> string" where
  "NameWithReplacements s replacements = ApplyNameables (Name s) replacements"

definition SpecializationWithReplacements ::
  "SkillDefault \<Rightarrow> (string \<times> string) list \<Rightarrow> string" where
  "SpecializationWithReplacements s replacements =
     ApplyNameables (Specialization s) replacements"

definition finalLevel :: "SkillDefault \<Rightarrow> fxp_Int \<Rightarrow> fxp_Int" where
  "finalLevel s level = (if level \<noteq> fxp_Min then level + Modifier s else level)"

text \<open>
  The loops of \<open>best\<close> and \<open>bestFast\<close> over the matching skills, with the running
  maximum as the accumulator. \<open>CalculateLevel sk excludes\<close> is the \<open>Level\<close> field of what
  \<open>sk.CalculateLevel(excludes)\<close> returns.

  The source passes one map \<open>replacements\<close>, and \<open>best\<close> and \<open>bestFast\<close> each range over
  it twice, once for the name and once for the specialization. \<open>nameOrder\<close> and
  \<open>specOrder\<close> are the entries of that map in the orders those two loops visit them.
\<close>

fun best_loop :: "excludes \<Rightarrow> Skill list \<Rightarrow> fxp_Int \<Rightarrow> fxp_Int" where
  "best_loop excludes [] best = best"
| "best_loop excludes (sk # sks) best =
     best_loop excludes sks
       (if best <s LevelData_Level sk then
          (let level = CalculateLevel sk excludes in
           if best <s level then level else best)
        else best)"

fun bestFast_loop :: "Skill list \<Rightarrow> fxp_Int \<Rightarrow> fxp_Int" where
  "bestFast_loop [] best = best"
| "bestFast_loop (sk # sks) best =
     bestFast_loop sks (if best <s LevelData_Level sk then LevelData_Level sk else best)"

definition best ::
  "Entity \<Rightarrow> SkillDefault \<Rightarrow> (string \<times> string) list \<Rightarrow> (string \<times> string) list \<Rightarrow> bool
     \<Rightarrow> excludes \<Rightarrow> fxp_Int" where
  "best entity s nameOrder specOrder requirePoints excludes =
     best_loop excludes
       (SkillNamed entity (NameWithReplacements s nameOrder)
          (SpecializationWithReplacements s specOrder) requirePoints excludes)
       fxp_Min"

definition bestFast ::
  "Entity \<Rightarrow> SkillDefault \<Rightarrow> (string \<times> string) list \<Rightarrow> (string \<times> string) list \<Rightarrow> bool
     \<Rightarrow> excludes \<Rightarrow> fxp_Int" where
  "bestFast entity s nameOrder specOrder requirePoints excludes =
     bestFast_loop
       (SkillNamed entity (NameWithReplacements s nameOrder)
          (SpecializationWithReplacements s specOrder) requirePoints excludes)
       fxp_Min"

definition SkillLevelFast ::
  "env \<Rightarrow> SkillDefault \<Rightarrow> Entity \<Rightarrow> (string \<times> string) list \<Rightarrow> (string \<times> string) list
     \<Rightarrow> bool \<Rightarrow> excludes \<Rightarrow> bool \<Rightarrow> fxp_Int" where
  "SkillLevelFast env s entity nameOrder specOrder requirePoints excludes ruleOf20 =
     (if Type s = DodgeID env then
        (let level = Dodge entity (EncumbranceLevel entity False);
             level = (if ruleOf20 \<and> 20 <s level then 20 else level)
         in finalLevel s (fxp_From level))
      else if Type s = ParryID env then
        (let best = bestFast entity s nameOrder specOrder requirePoints excludes;
             best = (if best \<noteq> fxp_Min
                     then fxp_Trunc (fxp_Div best fxp_Two) + fxp_Three + ParryBonus entity
                     else best)
         in finalLevel s best)
      else if Type s = BlockID env then
        (let best = bestFast entity s nameOrder specOrder requirePoints excludes;
             best = (if best \<noteq> fxp_Min
                     then fxp_Trunc (fxp_Div best fxp_Two) + fxp_Three + BlockBonus entity
                     else best)
         in finalLevel s best)
      else if Type s = SkillID env then
        finalLevel s (bestFast entity s nameOrder specOrder requirePoints excludes)
      else
        (let level = ResolveAttributeCurrent entity (Type s);
             level = (if ruleOf20 then fxp_Min_of level fxp_Twenty else level);
             level = (if UseHalfStatDefaults (SheetSettings entity)
                      then fxp_Trunc (fxp_Div level fxp_Two) + fxp_Five
                      else level)
         in finalLevel s level))"

definition SkillLevel ::
  "env \<Rightarrow> SkillDefault \<Rightarrow> Entity \<Rightarrow> (string \<times> string) list \<Rightarrow> (string \<times> string) list
     \<Rightarrow> bool \<Rightarrow> excludes \<Rightarrow> bool \<Rightarrow> fxp_Int" where
  "SkillLevel env s entity nameOrder specOrder requirePoints excludes ruleOf20 =
     (if Type s = ParryID env then
        (let best = best entity s nameOrder specOrder requirePoints excludes;
             best = (if best \<noteq> fxp_Min
                     then fxp_Trunc (fxp_Div best fxp_Two) + fxp_Three + ParryBonus entity
                     else best)
         in finalLevel s best)
      else if Type s = BlockID env then
        (let best = best entity s nameOrder specOrder requirePoints excludes;
             best = (if best \<noteq> fxp_Min
                     then fxp_Trunc (fxp_Div best fxp_Two) + fxp_Three + BlockBonus entity
                     else best)
         in finalLevel s best)
      else if Type s = SkillID env then
        finalLevel s (best entity s nameOrder specOrder requirePoints excludes)
      else SkillLevelFast env s entity nameOrder specOrder requirePoints excludes ruleOf20)"

subsection \<open>Hash\<close>

text \<open>
  The hasher is the sequence of the bytes written to it so far. \<open>binary.Write\<close> with
  \<open>binary.LittleEndian\<close> writes the eight bytes of the 64-bit modifier, lowest first.
\<close>

type_synonym byte = "8 word"

definition bytes_of :: "string \<Rightarrow> byte list" where
  "bytes_of s = map of_char s"

definition LittleEndian_int64 :: "int64 \<Rightarrow> byte list" where
  "LittleEndian_int64 v = map (\<lambda>i. ucast (drop_bit (8 * i) v)) [0..<8]"

definition Hash :: "SkillDefault \<Rightarrow> byte list \<Rightarrow> byte list" where
  "Hash s h =
     (let h = h @ bytes_of (DefaultType s);
          h = h @ bytes_of (Name s);
          h = h @ bytes_of (Specialization s);
          h = h @ LittleEndian_int64 (Modifier s)
      in h)"

subsection \<open>CloneWithoutLevelOrPoints\<close>

text \<open>
  The method takes a pointer and returns a pointer to a fresh object. The store is the
  list of the SkillDefault objects allocated so far, a pointer is an index into it, and
  an allocation appends. A pointer outside the store stands for \<open>nil\<close>, whose
  dereference panics (\<open>None\<close>).
\<close>

type_synonym store = "SkillDefault list"
type_synonym ptr = nat

definition CloneWithoutLevelOrPoints :: "store \<Rightarrow> ptr \<Rightarrow> (ptr \<times> store) option" where
  "CloneWithoutLevelOrPoints h s =
     (if s < length h then
        let clone = h ! s;
            clone = clone\<lparr>Level := 0\<rparr>;
            clone = clone\<lparr>AdjLevel := 0\<rparr>;
            clone = clone\<lparr>Points := 0\<rparr>
        in Some (length h, h @ [clone])
      else None)"

section \<open>Sample values\<close>

text \<open>The values the examples are evaluated at.\<close>

definition sample_default :: SkillDefault where
  "sample_default = \<lparr>DefaultType = ''skill'', Name = ''Sword'', Specialization = '''',
     Modifier = 10000, Level = 120000, AdjLevel = 110000, Points = 40000\<rparr>"

definition sample_sword :: SkillDefault where
  "sample_sword = \<lparr>DefaultType = ''skill'', Name = ''Sword'', Specialization = '''',
     Modifier = 10000, Level = 0, AdjLevel = 0, Points = 0\<rparr>"

definition sample_bonus :: WeaponBonus where
  "sample_bonus = \<lparr>Percent = False, SelectionType = WithName,
     NameCriteria = \<lparr>Compare = Is, Qualifier = ''Axe''\<rparr>,
     SpecializationCriteria = \<lparr>Compare = Any, Qualifier = ''''\<rparr>,
     TagsCriteria = \<lparr>Compare = Any, Qualifier = ''''\<rparr>,
     Amount = 10000\<rparr>"

definition sample_entity :: Entity where
  "sample_entity = \<lparr>ParryBonus = 0, BlockBonus = 10000,
     SheetSettings = \<lparr>DefaultWeightUnits = 0, UseHalfStatDefaults = False\<rparr>,
     SkillNamed = (\<lambda>name specialization requirePoints excludes.
        if name = ''Sword'' \<or> name = ''xbx''
        then [\<lparr>LevelData_Level = 120000, CalculateLevel = (\<lambda>excludes. 120000)\<rparr>,
              \<lparr>LevelData_Level = 100000, CalculateLevel = (\<lambda>excludes. 100000)\<rparr>]
        else if name = ''Cursed''
        then [\<lparr>LevelData_Level = - 10000, CalculateLevel = (\<lambda>excludes. - 10000)\<rparr>]
        else []),
     EncumbranceLevel = (\<lambda>forSkills. 0),
     Dodge = (\<lambda>encumbrance. 8),
     ResolveAttributeCurrent = (\<lambda>attrID. 110000)\<rparr>"

definition sample_criteria :: WeightCriteria where
  "sample_criteria = \<lparr>WeightCompare = AtMostNumber, WeightQualifier = 50000\<rparr>"

definition sample_backpack :: Equipment where
  "sample_backpack = \<lparr>Container = True,
     ExtendedWeight = (\<lambda>forSkills units. 120000),
     AdjustedWeight = (\<lambda>forSkills units. 30000)\<rparr>"

definition sample_rope :: Equipment where
  "sample_rope = \<lparr>Container = False,
     ExtendedWeight = (\<lambda>forSkills units. 20000),
     AdjustedWeight = (\<lambda>forSkills units. 20000)\<rparr>"

section \<open>Theorems\<close>

subsection \<open>Nameables\<close>

lemma length_strings_Split: "length (strings_Split s c) = Suc (strings_Count s c)"
  by (induction s) (auto split: list.splits)

lemma ExtractNameables_loop_lookup:
  "ExtractNameables_loop count existing i parts m k =
     (if \<exists>j < length parts. odd (i + j) \<and> i + j < count \<and> parts ! j = k
      then Some (case existing k of Some v \<Rightarrow> v | None \<Rightarrow> k)
      else m k)"
proof (induction parts arbitrary: i m)
  case Nil
  then show ?case by simp
next
  case (Cons one parts)
  have ex: "(\<exists>j < length (one # parts). odd (i + j) \<and> i + j < count \<and> (one # parts) ! j = k)
        \<longleftrightarrow> (odd i \<and> i < count \<and> one = k)
             \<or> (\<exists>j < length parts. odd (Suc i + j) \<and> Suc i + j < count \<and> parts ! j = k)"
    (is "?L \<longleftrightarrow> ?A \<or> ?B")
  proof
    assume ?L
    then obtain j where j: "j < length (one # parts)" "odd (i + j)" "i + j < count"
        "(one # parts) ! j = k"
      by blast
    show "?A \<or> ?B"
    proof (cases j)
      case 0
      with j show ?thesis by simp
    next
      case (Suc j')
      with j have "j' < length parts" "odd (Suc i + j')" "Suc i + j' < count" "parts ! j' = k"
        by simp_all
      then show ?thesis by blast
    qed
  next
    assume "?A \<or> ?B"
    then show ?L
    proof
      assume ?A
      then have "0 < length (one # parts) \<and> odd (i + 0) \<and> i + 0 < count
          \<and> (one # parts) ! 0 = k"
        by simp
      then show ?L by blast
    next
      assume ?B
      then obtain j where "j < length parts" "odd (Suc i + j)" "Suc i + j < count"
          "parts ! j = k"
        by blast
      then have "Suc j < length (one # parts) \<and> odd (i + Suc j) \<and> i + Suc j < count
          \<and> (one # parts) ! Suc j = k"
        by simp
      then show ?L by blast
    qed
  qed
  show ?case
    unfolding ExtractNameables_loop.simps Cons.IH ex
    by (auto simp: odd_iff_mod_2_eq_one split: option.splits)
qed

lemma ExtractNameables_lookup:
  "ExtractNameables str m existing k =
     (if 1 < strings_Count str (CHR ''@'')
         \<and> (\<exists>i. odd i \<and> i < strings_Count str (CHR ''@'')
                 \<and> strings_Split str (CHR ''@'') ! i = k)
      then Some (case existing k of Some v \<Rightarrow> v | None \<Rightarrow> k)
      else m k)"
proof -
  let ?count = "strings_Count str (CHR ''@'')"
  let ?parts = "strings_Split str (CHR ''@'')"
  define cand where "cand \<longleftrightarrow> (\<exists>i. odd i \<and> i < ?count \<and> ?parts ! i = k)"
  have "(\<exists>j < length ?parts. odd (0 + j) \<and> 0 + j < ?count \<and> ?parts ! j = k) \<longleftrightarrow> cand"
    unfolding cand_def
  proof
    assume "\<exists>j < length ?parts. odd (0 + j) \<and> 0 + j < ?count \<and> ?parts ! j = k"
    then show "\<exists>i. odd i \<and> i < ?count \<and> ?parts ! i = k"
      by auto
  next
    assume "\<exists>i. odd i \<and> i < ?count \<and> ?parts ! i = k"
    then obtain i where "odd i" "i < ?count" "?parts ! i = k"
      by blast
    then have "i < length ?parts \<and> odd (0 + i) \<and> 0 + i < ?count \<and> ?parts ! i = k"
      by (simp add: length_strings_Split)
    then show "\<exists>j < length ?parts. odd (0 + j) \<and> 0 + j < ?count \<and> ?parts ! j = k"
      by blast
  qed
  then have loop: "ExtractNameables_loop ?count existing 0 ?parts m k =
      (if cand then Some (case existing k of Some v \<Rightarrow> v | None \<Rightarrow> k) else m k)"
    by (simp only: ExtractNameables_loop_lookup)
  have "ExtractNameables str m existing k =
     (if 1 < ?count \<and> cand then Some (case existing k of Some v \<Rightarrow> v | None \<Rightarrow> k)
      else m k)"
  proof (cases "1 < ?count")
    case True
    then show ?thesis by (simp add: ExtractNameables_def Let_def loop)
  next
    case False
    then show ?thesis by (simp add: ExtractNameables_def Let_def)
  qed
  then show ?thesis
    unfolding cand_def .
qed

text \<open>
  C4. For every string and maps \<open>m\<close> and \<open>existing\<close>, the map ExtractNameables leaves
  holds, at a key \<open>k\<close>: when the string has more than one \<open>"@"\<close> and \<open>k\<close> is a segment of the
  string split on \<open>"@"\<close> whose 0-based index is odd and less than the number of \<open>"@"\<close>, the
  value \<open>existing\<close> has for \<open>k\<close> if it has one and \<open>k\<close> itself otherwise; at every other
  key, and at every key when the string has 0 or 1 \<open>"@"\<close>, what \<open>m\<close> held.
\<close>

theorem ExtractNameables_keys:
  "ExtractNameables str m existing k =
     (if 1 < strings_Count str (CHR ''@'')
         \<and> (\<exists>i. odd i \<and> i < strings_Count str (CHR ''@'')
                 \<and> strings_Split str (CHR ''@'') ! i = k)
      then Some (case existing k of Some v \<Rightarrow> v | None \<Rightarrow> k)
      else m k)
   \<and> (strings_Count str (CHR ''@'') \<le> 1 \<longrightarrow> ExtractNameables str m existing = m)"
  by (simp add: ExtractNameables_lookup) (simp add: ExtractNameables_def Let_def)

theorem ExtractNameables_keys_witness:
  "ExtractNameables ''@ST@ is strong'' Map.empty Map.empty ''ST'' = Some ''ST''
   \<and> ExtractNameables ''@ST@ is strong'' Map.empty [''ST'' \<mapsto> ''14''] ''ST'' = Some ''14''
   \<and> ExtractNameables ''@ST@ is strong'' Map.empty Map.empty '' is strong'' = None
   \<and> strings_Count ''no tokens here'' (CHR ''@'') \<le> 1
   \<and> ExtractNameables ''no tokens here'' Map.empty Map.empty = Map.empty
   \<and> strings_Count ''a@b'' (CHR ''@'') \<le> 1
   \<and> ExtractNameables ''a@b'' [''b'' \<mapsto> ''c''] Map.empty = [''b'' \<mapsto> ''c'']"
proof -
  have count: "strings_Count ''@ST@ is strong'' (CHR ''@'') = 2"
    and parts: "strings_Split ''@ST@ is strong'' (CHR ''@'') = ['''', ''ST'', '' is strong'']"
    and none: "strings_Count ''no tokens here'' (CHR ''@'') \<le> 1"
    and one: "strings_Count ''a@b'' (CHR ''@'') \<le> 1"
    by simp_all
  have odd_ST: "\<exists>i. odd i \<and> i < (2::nat) \<and> ['''', ''ST'', '' is strong''] ! i = ''ST''"
    by (rule exI [of _ 1]) simp
  have odd_rest: "\<not> (\<exists>i. odd i \<and> i < (2::nat)
      \<and> ['''', ''ST'', '' is strong''] ! i = '' is strong'')"
  proof
    assume "\<exists>i. odd i \<and> i < (2::nat) \<and> ['''', ''ST'', '' is strong''] ! i = '' is strong''"
    then obtain i :: nat where "odd i" "i < 2"
        "['''', ''ST'', '' is strong''] ! i = '' is strong''"
      by blast
    moreover from \<open>odd i\<close> \<open>i < 2\<close> have "i = 1"
      by presburger
    ultimately show False by simp
  qed
  show ?thesis
    using ExtractNameables_keys [of "''@ST@ is strong''" Map.empty Map.empty "''ST''"]
      ExtractNameables_keys [of "''@ST@ is strong''" Map.empty "[''ST'' \<mapsto> ''14'']" "''ST''"]
      ExtractNameables_keys [of "''@ST@ is strong''" Map.empty Map.empty "'' is strong''"]
      ExtractNameables_keys [of "''no tokens here''" Map.empty Map.empty]
      ExtractNameables_keys [of "''a@b''" "[''b'' \<mapsto> ''c'']" Map.empty]
      none one
    unfolding count parts
    using odd_ST odd_rest
    by simp
qed

lemma prefix_marker_iff:
  "c \<notin> set a \<Longrightarrow> c \<notin> set b \<Longrightarrow> prefix (a @ [c]) (b @ c # ys) \<longleftrightarrow> a = b"
proof (induction a arbitrary: b)
  case Nil
  then show ?case by (cases b) auto
next
  case (Cons x a)
  then show ?case by (cases b) auto
qed

lemma strings_ReplaceAll_skip:
  "CHR ''@'' \<notin> set t
     \<Longrightarrow> strings_ReplaceAll (t @ xs) (CHR ''@'' # q) v = t @ strings_ReplaceAll xs (CHR ''@'' # q) v"
  by (induction t) auto

lemma strings_Contains_refl: "strings_Contains s s"
  by (cases s) simp_all

lemma strings_Contains_append_left:
  "strings_Contains key (a @ b) \<Longrightarrow> strings_Contains key a"
proof (induction key)
  case Nil
  then show ?case by simp
next
  case (Cons x key)
  then show ?case by (auto dest: append_prefixD)
qed

lemma strings_Count_append:
  "strings_Count (a @ b) c = strings_Count a c + strings_Count b c"
  by (induction a) simp_all

lemma strings_Count_absent: "c \<notin> set a \<Longrightarrow> strings_Count a c = 0"
  by (induction a) auto

lemma residual_Nil: "snd (residual m toks) \<noteq> [] \<Longrightarrow> toks \<noteq> []"
  by (cases toks) auto

lemma residual_keys:
  "(k, t) \<in> set (snd (residual m toks)) \<Longrightarrow> k \<in> fst ` set toks \<and> m k = None"
proof (induction toks arbitrary: t)
  case Nil
  then show ?case by simp
next
  case (Cons kt toks)
  obtain k1 t1 where kt: "kt = (k1, t1)" by (cases kt)
  show ?case
  proof (cases "m k1")
    case None
    with Cons.prems kt have "(k = k1 \<and> m k1 = None) \<or> (k, t) \<in> set (snd (residual m toks))"
      by auto
    with Cons.IH kt show ?thesis by auto
  next
    case (Some v)
    with Cons.prems kt have "(k, t) \<in> set (snd (residual m toks))"
      by simp
    with Cons.IH kt show ?thesis by auto
  qed
qed

lemma residual_separated:
  assumes "\<forall>v \<in> ran m. CHR ''@'' \<notin> set v"
  shows "separated K toks
     \<Longrightarrow> CHR ''@'' \<notin> set (fst (residual m toks)) \<and> separated K (snd (residual m toks))"
proof (induction toks)
  case Nil
  then show ?case by simp
next
  case (Cons kt toks)
  obtain k t where kt: "kt = (k, t)" by (cases kt)
  from Cons.prems kt have sep: "CHR ''@'' \<notin> set k" "CHR ''@'' \<notin> set t"
      "toks = [] \<or> (\<forall>key \<in> K. \<not> strings_Contains key t)" "separated K toks"
    by simp_all
  from Cons.IH [OF sep(4)] have ih: "CHR ''@'' \<notin> set (fst (residual m toks))"
      "separated K (snd (residual m toks))"
    by simp_all
  show ?case
  proof (cases "m k")
    case (Some v)
    then have "v \<in> ran m" by (auto simp: ran_def)
    with assms have "CHR ''@'' \<notin> set v" by blast
    with Some sep ih show ?thesis by (simp add: kt)
  next
    case None
    have "snd (residual m toks) = [] \<or> (\<forall>key \<in> K. \<not> strings_Contains key (t @ fst (residual m toks)))"
    proof (cases "snd (residual m toks) = []")
      case True
      then show ?thesis by simp
    next
      case False
      then have "toks \<noteq> []" by (rule residual_Nil)
      with sep(3) have "\<forall>key \<in> K. \<not> strings_Contains key t" by simp
      then show ?thesis by (blast dest: strings_Contains_append_left)
    qed
    with None sep ih show ?thesis by (simp add: kt)
  qed
qed

lemma expand_tokens_residual:
  "expand_tokens m toks = fst (residual m toks) @ tokens_text (snd (residual m toks))"
  by (induction toks) (auto split: option.splits)

lemma expand_tokens_no_keys:
  "\<forall>k \<in> fst ` set toks. m k = None \<Longrightarrow> expand_tokens m toks = tokens_text toks"
  by (induction toks) auto

lemma expand_tokens_step:
  assumes "m1 k = Some v" and "\<And>k'. k' \<noteq> k \<Longrightarrow> m1 k' = None"
  shows "fst (residual m1 toks) @ expand_tokens m (snd (residual m1 toks))
     = expand_tokens (m(k \<mapsto> v)) toks"
  using assms by (induction toks) auto

lemma strings_ReplaceAll_tokens_text:
  assumes "CHR ''@'' \<notin> set k" and "k \<in> K"
    and m1: "m1 k = Some v" "\<And>k'. k' \<noteq> k \<Longrightarrow> m1 k' = None"
  shows "separated K toks
     \<Longrightarrow> strings_ReplaceAll (tokens_text toks) (CHR ''@'' # k @ ''@'') v
          = fst (residual m1 toks) @ tokens_text (snd (residual m1 toks))"
proof (induction toks)
  case Nil
  then show ?case by simp
next
  case (Cons kt toks)
  obtain k1 t1 where kt: "kt = (k1, t1)" by (cases kt)
  let ?p = "CHR ''@'' # k @ ''@''"
  from Cons.prems kt have sep: "CHR ''@'' \<notin> set k1" "CHR ''@'' \<notin> set t1"
      "toks = [] \<or> (\<forall>key \<in> K. \<not> strings_Contains key t1)" "separated K toks"
    by simp_all
  from Cons.IH [OF sep(4)]
  have ih: "strings_ReplaceAll (tokens_text toks) ?p v
      = fst (residual m1 toks) @ tokens_text (snd (residual m1 toks))" .
  have after: "strings_ReplaceAll (t1 @ tokens_text toks) ?p v
      = t1 @ fst (residual m1 toks) @ tokens_text (snd (residual m1 toks))"
    using sep(2) by (simp add: strings_ReplaceAll_skip ih)
  show ?case
  proof (cases "k1 = k")
    case True
    have "prefix ?p (tokens_text ((k, t1) # toks))"
      by simp
    then have "strings_ReplaceAll (tokens_text ((k, t1) # toks)) ?p v
        = v @ strings_ReplaceAll (t1 @ tokens_text toks) ?p v"
      by simp
    with True after m1(1) show ?thesis by (simp add: kt)
  next
    case False
    have open_marker: "\<not> prefix ?p (CHR ''@'' # k1 @ CHR ''@'' # t1 @ tokens_text toks)"
      using prefix_marker_iff [of "CHR ''@''" k k1 "t1 @ tokens_text toks"] assms(1) sep(1) False
      by auto
    have close_marker: "\<not> prefix ?p (CHR ''@'' # t1 @ tokens_text toks)"
    proof (cases toks)
      case Nil
      have "\<not> prefix (k @ ''@'') t1"
      proof
        assume "prefix (k @ ''@'') t1"
        then have "set (k @ ''@'') \<subseteq> set t1" by (rule set_mono_prefix)
        with sep(2) show False by auto
      qed
      with Nil show ?thesis by simp
    next
      case (Cons kt2 rest)
      obtain k2 t2 where kt2: "kt2 = (k2, t2)" by (cases kt2)
      from sep(3) Cons assms(2) have "\<not> strings_Contains k t1" by simp
      then have "k \<noteq> t1" using strings_Contains_refl by auto
      with prefix_marker_iff [of "CHR ''@''" k t1 "k2 @ ''@'' @ t2 @ tokens_text rest"]
        assms(1) sep(2)
      show ?thesis by (simp add: Cons kt2)
    qed
    have "strings_ReplaceAll (tokens_text ((k1, t1) # toks)) ?p v
        = CHR ''@'' # strings_ReplaceAll (k1 @ CHR ''@'' # t1 @ tokens_text toks) ?p v"
      using open_marker by simp
    also have "\<dots> = CHR ''@'' # k1 @ strings_ReplaceAll (CHR ''@'' # t1 @ tokens_text toks) ?p v"
      using sep(1) by (simp add: strings_ReplaceAll_skip)
    also have "\<dots> = CHR ''@'' # k1 @ CHR ''@'' # strings_ReplaceAll (t1 @ tokens_text toks) ?p v"
      using close_marker by simp
    finally show ?thesis
      using False after m1(2) [of k1] by (simp add: kt)
  qed
qed

lemma ApplyNameables_loop_tokens:
  assumes "\<forall>k \<in> fst ` set ord. k \<in> K \<and> CHR ''@'' \<notin> set k"
    and "\<forall>v \<in> snd ` set ord. CHR ''@'' \<notin> set v"
  shows "CHR ''@'' \<notin> set t0 \<Longrightarrow> separated K toks
     \<Longrightarrow> ApplyNameables_loop ord (t0 @ tokens_text toks) = t0 @ expand_tokens (map_of ord) toks"
  using assms
proof (induction ord arbitrary: t0 toks)
  case Nil
  then show ?case by (simp add: expand_tokens_no_keys)
next
  case (Cons kv ord)
  obtain k v where kv: "kv = (k, v)" by (cases kv)
  define m1 where "m1 = [k \<mapsto> v]"
  have m1: "m1 k = Some v" "\<And>k'. k' \<noteq> k \<Longrightarrow> m1 k' = None"
    by (simp_all add: m1_def)
  from Cons.prems kv have k: "k \<in> K" "CHR ''@'' \<notin> set k" and v: "CHR ''@'' \<notin> set v"
    and rest: "\<forall>k \<in> fst ` set ord. k \<in> K \<and> CHR ''@'' \<notin> set k"
      "\<forall>v \<in> snd ` set ord. CHR ''@'' \<notin> set v"
    by simp_all
  have "\<forall>w \<in> ran m1. CHR ''@'' \<notin> set w"
    using v by (auto simp: m1_def ran_def split: if_splits)
  from residual_separated [OF this Cons.prems(2)]
  have pre: "CHR ''@'' \<notin> set (fst (residual m1 toks))"
    and toks': "separated K (snd (residual m1 toks))"
    by simp_all
  have "strings_ReplaceAll (t0 @ tokens_text toks) (''@'' @ k @ ''@'') v
      = t0 @ strings_ReplaceAll (tokens_text toks) (CHR ''@'' # k @ ''@'') v"
    using Cons.prems(1) by (simp add: strings_ReplaceAll_skip)
  also have "\<dots> = (t0 @ fst (residual m1 toks)) @ tokens_text (snd (residual m1 toks))"
    using strings_ReplaceAll_tokens_text [where k = k and K = K and ?m1.0 = m1 and v = v and toks = toks]
      k m1 Cons.prems(2) by simp
  finally have step: "strings_ReplaceAll (t0 @ tokens_text toks) (''@'' @ k @ ''@'') v
      = (t0 @ fst (residual m1 toks)) @ tokens_text (snd (residual m1 toks))" .
  have "CHR ''@'' \<notin> set (t0 @ fst (residual m1 toks))"
    using Cons.prems(1) pre by simp
  from Cons.IH [OF this toks' rest]
  have ih: "ApplyNameables_loop ord
        ((t0 @ fst (residual m1 toks)) @ tokens_text (snd (residual m1 toks)))
      = (t0 @ fst (residual m1 toks)) @ expand_tokens (map_of ord) (snd (residual m1 toks))" .
  have upd: "(map_of ord)(k \<mapsto> v) = map_of (kv # ord)"
    by (simp add: kv)
  have "ApplyNameables_loop (kv # ord) (t0 @ tokens_text toks)
      = ApplyNameables_loop ord
          (strings_ReplaceAll (t0 @ tokens_text toks) (''@'' @ k @ ''@'') v)"
    by (simp only: kv ApplyNameables_loop.simps)
  also have "\<dots> = (t0 @ fst (residual m1 toks))
      @ expand_tokens (map_of ord) (snd (residual m1 toks))"
    by (simp only: step ih)
  also have "\<dots> = t0 @ expand_tokens ((map_of ord)(k \<mapsto> v)) toks"
    using expand_tokens_step [where ?m1.0 = m1 and k = k and v = v and m = "map_of ord"
        and toks = toks] m1
    by simp
  finally show ?case
    by (simp only: upd)
qed

lemma strings_Count_tokens_text:
  "strings_Count (t0 @ tokens_text toks) (CHR ''@'') \<le> 1 \<Longrightarrow> toks = []"
  by (cases toks) (auto simp: strings_Count_append)

lemma ApplyNameables_tokens:
  assumes "\<forall>k \<in> fst ` set ord. k \<in> K \<and> CHR ''@'' \<notin> set k"
    and "\<forall>v \<in> snd ` set ord. CHR ''@'' \<notin> set v"
    and "CHR ''@'' \<notin> set t0" and "separated K toks"
  shows "ApplyNameables (t0 @ tokens_text toks) ord = t0 @ expand_tokens (map_of ord) toks"
proof (cases "1 < strings_Count (t0 @ tokens_text toks) (CHR ''@'')")
  case True
  then show ?thesis
    using ApplyNameables_loop_tokens [OF assms(1,2,3,4)] by (simp add: ApplyNameables_def)
next
  case False
  then have "strings_Count (t0 @ tokens_text toks) (CHR ''@'') \<le> 1"
    by simp
  then have "toks = []"
    by (rule strings_Count_tokens_text)
  with False show ?thesis
    by (simp add: ApplyNameables_def)
qed

lemma same_map_map_of: "same_map m m' \<Longrightarrow> map_of m = map_of m'"
  by (simp add: same_map_def map_of_inject_set)

lemma ApplyNameables_order:
  assumes "same_map m m'" and "order_free m str"
  shows "ApplyNameables str m = ApplyNameables str m'"
proof -
  from assms(1) have sets: "set m' = set m"
    by (simp add: same_map_def)
  from assms(2) consider (few) "strings_Count str (CHR ''@'') \<le> 1"
    | (tokens) "\<forall>k \<in> fst ` set m. CHR ''@'' \<notin> set k" "\<forall>v \<in> snd ` set m. CHR ''@'' \<notin> set v"
        "token_text (fst ` set m) str"
    by (auto simp: order_free_def)
  then show ?thesis
  proof cases
    case few
    then show ?thesis by (simp add: ApplyNameables_def)
  next
    case tokens
    from tokens(3) obtain t0 toks where str: "str = t0 @ tokens_text toks"
      and t0: "CHR ''@'' \<notin> set t0" and sep: "separated (fst ` set m) toks"
      by (auto simp: token_text_def)
    have keys: "\<forall>k \<in> fst ` set m. k \<in> fst ` set m \<and> CHR ''@'' \<notin> set k"
      using tokens(1) by simp
    have keys': "\<forall>k \<in> fst ` set m'. k \<in> fst ` set m \<and> CHR ''@'' \<notin> set k"
      and values': "\<forall>v \<in> snd ` set m'. CHR ''@'' \<notin> set v"
      using tokens(1,2) by (simp_all add: sets)
    show ?thesis
      unfolding str
      by (simp only: ApplyNameables_tokens [OF keys tokens(2) t0 sep]
          ApplyNameables_tokens [OF keys' values' t0 sep] same_map_map_of [OF assms(1)])
  qed
qed

lemma ApplyNameables_again:
  assumes "set m' = set m"
    and "\<forall>k \<in> fst ` set m. CHR ''@'' \<notin> set k" and "\<forall>v \<in> snd ` set m. CHR ''@'' \<notin> set v"
    and "token_text (fst ` set m) str"
  shows "ApplyNameables (ApplyNameables str m) m' = ApplyNameables str m"
proof -
  let ?K = "fst ` set m"
  from assms(4) obtain t0 toks where str: "str = t0 @ tokens_text toks"
    and t0: "CHR ''@'' \<notin> set t0" and sep: "separated ?K toks"
    by (auto simp: token_text_def)
  have keys: "\<forall>k \<in> fst ` set m. k \<in> ?K \<and> CHR ''@'' \<notin> set k"
    using assms(2) by simp
  have keys': "\<forall>k \<in> fst ` set m'. k \<in> ?K \<and> CHR ''@'' \<notin> set k"
    and values': "\<forall>v \<in> snd ` set m'. CHR ''@'' \<notin> set v"
    using assms(1,2,3) by simp_all
  let ?pre = "fst (residual (map_of m) toks)"
  let ?left = "snd (residual (map_of m) toks)"
  have first: "ApplyNameables str m = (t0 @ ?pre) @ tokens_text ?left"
    unfolding str
    by (simp add: ApplyNameables_tokens [OF keys assms(3) t0 sep] expand_tokens_residual)
  have "\<forall>v \<in> ran (map_of m). CHR ''@'' \<notin> set v"
  proof
    fix v
    assume "v \<in> ran (map_of m)"
    then obtain k where "map_of m k = Some v"
      by (auto simp: ran_def)
    then have "(k, v) \<in> set m"
      by (rule map_of_SomeD)
    then have "v \<in> snd ` set m"
      by force
    with assms(3) show "CHR ''@'' \<notin> set v"
      by blast
  qed
  from residual_separated [OF this sep]
  have pre: "CHR ''@'' \<notin> set (t0 @ ?pre)" and left: "separated ?K ?left"
    using t0 by simp_all
  have "\<forall>k \<in> fst ` set ?left. map_of m' k = None"
  proof
    fix k
    assume "k \<in> fst ` set ?left"
    then obtain t where "(k, t) \<in> set ?left"
      by auto
    then have "map_of m k = None"
      using residual_keys by blast
    then have "k \<notin> fst ` set m"
      by (simp add: map_of_eq_None_iff)
    then show "map_of m' k = None"
      by (simp add: map_of_eq_None_iff assms(1))
  qed
  then have "expand_tokens (map_of m') ?left = tokens_text ?left"
    by (rule expand_tokens_no_keys)
  then have "ApplyNameables ((t0 @ ?pre) @ tokens_text ?left) m' = (t0 @ ?pre) @ tokens_text ?left"
    by (simp only: ApplyNameables_tokens [OF keys' values' pre left])
  then show ?thesis
    by (simp only: first)
qed

text \<open>
  C8, as the code has it. ApplyNameables replaces literally and does not look at where a
  token begins: at \<open>"@@a@@"\<close> a replacement that holds no marker puts two markers
  around a key, and the second application replaces the token the first one has made.
  What holds: for every replacement map in which no value holds a marker, and whatever
  order each of the three applications visits the map in,
  \<open>ApplyNameables(ApplyNameables(str, m), m) = ApplyNameables(str, m)\<close> for every \<open>str\<close>
  with at most one marker, and, when no key of the map holds a marker, for every \<open>str\<close>
  made of texts and tokens without further markers in which the text between two
  successive tokens is not a contiguous part of any key of the map.
\<close>

theorem ApplyNameables_idempotent:
  assumes "same_map m m'" and "same_map m m''"
    and "\<forall>v \<in> snd ` set m. CHR ''@'' \<notin> set v"
    and "strings_Count str (CHR ''@'') \<le> 1
         \<or> ((\<forall>k \<in> fst ` set m. CHR ''@'' \<notin> set k) \<and> token_text (fst ` set m) str)"
  shows "ApplyNameables (ApplyNameables str m) m' = ApplyNameables str m''"
proof -
  from assms(1) have sets: "set m' = set m"
    by (simp add: same_map_def)
  from assms(4) show ?thesis
  proof
    assume "strings_Count str (CHR ''@'') \<le> 1"
    then show ?thesis
      by (simp add: ApplyNameables_def)
  next
    assume tokens: "(\<forall>k \<in> fst ` set m. CHR ''@'' \<notin> set k) \<and> token_text (fst ` set m) str"
    then have "order_free m str"
      using assms(3) by (simp add: order_free_def)
    with assms(2) have "ApplyNameables str m = ApplyNameables str m''"
      by (rule ApplyNameables_order)
    moreover have "ApplyNameables (ApplyNameables str m) m' = ApplyNameables str m"
      using sets tokens assms(3) by (intro ApplyNameables_again) simp_all
    ultimately show ?thesis
      by simp
  qed
qed

theorem ApplyNameables_idempotent_witness:
  "same_map [(''ST'', ''14''), (''DX'', ''12'')] [(''DX'', ''12''), (''ST'', ''14'')]
   \<and> ''@ST@ and @DX@ are set'' = [] @ tokens_text [(''ST'', '' and ''), (''DX'', '' are set'')]
   \<and> separated {''ST'', ''DX''} [(''ST'', '' and ''), (''DX'', '' are set'')]
   \<and> ApplyNameables ''@ST@ and @DX@ are set'' [(''ST'', ''14''), (''DX'', ''12'')]
       = ''14 and 12 are set''
   \<and> ApplyNameables
        (ApplyNameables ''@ST@ and @DX@ are set'' [(''ST'', ''14''), (''DX'', ''12'')])
        [(''DX'', ''12''), (''ST'', ''14'')]
       = ApplyNameables ''@ST@ and @DX@ are set'' [(''DX'', ''12''), (''ST'', ''14'')]
   \<and> strings_Count ''a@b'' (CHR ''@'') \<le> 1
   \<and> ApplyNameables (ApplyNameables ''a@b'' [(''ST'', ''14''), (''DX'', ''12'')])
        [(''DX'', ''12''), (''ST'', ''14'')]
       = ApplyNameables ''a@b'' [(''DX'', ''12''), (''ST'', ''14'')]"
proof -
  let ?m = "[(''ST'', ''14''), (''DX'', ''12'')]"
  let ?m' = "[(''DX'', ''12''), (''ST'', ''14'')]"
  let ?toks = "[(''ST'', '' and ''), (''DX'', '' are set'')]"
  have same: "same_map ?m ?m'"
    by (auto simp: same_map_def)
  have vals: "\<forall>v \<in> snd ` set ?m. CHR ''@'' \<notin> set v"
    by simp
  have keys: "\<forall>k \<in> fst ` set ?m. CHR ''@'' \<notin> set k"
    by simp
  have K: "fst ` set ?m = {''ST'', ''DX''}"
    by simp
  have pieces: "''@ST@ and @DX@ are set'' = [] @ tokens_text ?toks"
    by simp
  have sep: "separated {''ST'', ''DX''} ?toks"
    by simp
  have "token_text (fst ` set ?m) ''@ST@ and @DX@ are set''"
    unfolding token_text_def K
    using pieces sep by (intro exI [of _ "[]"] exI [of _ ?toks]) simp
  with keys have tokens: "strings_Count ''@ST@ and @DX@ are set'' (CHR ''@'') \<le> 1
      \<or> ((\<forall>k \<in> fst ` set ?m. CHR ''@'' \<notin> set k)
         \<and> token_text (fst ` set ?m) ''@ST@ and @DX@ are set'')"
    by blast
  have few: "strings_Count ''a@b'' (CHR ''@'') \<le> 1"
    by simp
  then have few': "strings_Count ''a@b'' (CHR ''@'') \<le> 1
      \<or> ((\<forall>k \<in> fst ` set ?m. CHR ''@'' \<notin> set k) \<and> token_text (fst ` set ?m) ''a@b'')"
    by blast
  have val: "ApplyNameables ''@ST@ and @DX@ are set'' ?m = ''14 and 12 are set''"
    by (simp add: ApplyNameables_def)
  from ApplyNameables_idempotent [OF same same vals tokens]
    ApplyNameables_idempotent [OF same same vals few']
    same pieces sep val few
  show ?thesis
    by blast
qed

text \<open>
  The claim as it is written fails at the text \<open>"@@a@@"\<close> and the map that sends \<open>a\<close> to
  \<open>a\<close>, which has one visiting order: the first application gives \<open>"@a@"\<close>, the second
  \<open>"a"\<close>.
\<close>

theorem ApplyNameables_idempotent_counterexample:
  "\<not> (\<forall>str m m' m''. same_map m m' \<and> same_map m m''
          \<and> (\<forall>v \<in> snd ` set m. CHR ''@'' \<notin> set v)
         \<longrightarrow> ApplyNameables (ApplyNameables str m) m' = ApplyNameables str m'')"
proof
  assume all: "\<forall>str m m' m''. same_map m m' \<and> same_map m m''
          \<and> (\<forall>v \<in> snd ` set m. CHR ''@'' \<notin> set v)
         \<longrightarrow> ApplyNameables (ApplyNameables str m) m' = ApplyNameables str m''"
  have first: "ApplyNameables ''@@a@@'' [(''a'', ''a'')] = ''@a@''"
    by (simp add: ApplyNameables_def)
  have second: "ApplyNameables ''@a@'' [(''a'', ''a'')] = ''a''"
    by (simp add: ApplyNameables_def)
  have "same_map [(''a'', ''a'')] [(''a'', ''a'')] \<and> same_map [(''a'', ''a'')] [(''a'', ''a'')]
      \<and> (\<forall>v \<in> snd ` set [(''a'', ''a'')]. CHR ''@'' \<notin> set v)"
    by (simp add: same_map_def)
  with all have "ApplyNameables (ApplyNameables ''@@a@@'' [(''a'', ''a'')]) [(''a'', ''a'')]
      = ApplyNameables ''@@a@@'' [(''a'', ''a'')]"
    by blast
  then show False
    by (simp add: first second)
qed

subsection \<open>WeaponBonus\<close>

text \<open>
  C7. For every WeaponBonus, FeatureMapKey returns the fixed key ThisWeaponID when the
  selection type is ThisWeapon. For WithRequiredSkill (prefix SkillNameID) and WithName
  (prefix WeaponNamedIDPrefix) it returns the prefix, \<open>"/"\<close> and the name qualifier
  exactly when the name criterion compares as Is and the specialization and tags
  criteria both compare as Any, and the prefix and \<open>"*"\<close> otherwise. Two WeaponBonus
  values with the same selection type and the same three criteria have the same key.
\<close>

theorem FeatureMapKey_cases:
  "(SelectionType w = ThisWeapon \<longrightarrow> FeatureMapKey env w = Inr ThisWeaponID)
   \<and> (SelectionType w = WithRequiredSkill \<longrightarrow>
        ((FeatureMapKey env w = Inr (SkillNameID env @ ''/'' @ Qualifier (NameCriteria w)))
           \<longleftrightarrow> (Compare (NameCriteria w) = Is \<and> Compare (SpecializationCriteria w) = Any
                  \<and> Compare (TagsCriteria w) = Any))
        \<and> (\<not> (Compare (NameCriteria w) = Is \<and> Compare (SpecializationCriteria w) = Any
                  \<and> Compare (TagsCriteria w) = Any)
             \<longrightarrow> FeatureMapKey env w = Inr (SkillNameID env @ ''*'')))
   \<and> (SelectionType w = WithName \<longrightarrow>
        ((FeatureMapKey env w = Inr (WeaponNamedIDPrefix @ ''/'' @ Qualifier (NameCriteria w)))
           \<longleftrightarrow> (Compare (NameCriteria w) = Is \<and> Compare (SpecializationCriteria w) = Any
                  \<and> Compare (TagsCriteria w) = Any))
        \<and> (\<not> (Compare (NameCriteria w) = Is \<and> Compare (SpecializationCriteria w) = Any
                  \<and> Compare (TagsCriteria w) = Any)
             \<longrightarrow> FeatureMapKey env w = Inr (WeaponNamedIDPrefix @ ''*'')))
   \<and> (SelectionType w = SelectionType w' \<and> NameCriteria w = NameCriteria w'
        \<and> SpecializationCriteria w = SpecializationCriteria w'
        \<and> TagsCriteria w = TagsCriteria w'
        \<longrightarrow> FeatureMapKey env w = FeatureMapKey env w')"
  by (simp add: FeatureMapKey_def buildKey_def split: SelectionType.split)

theorem FeatureMapKey_cases_witness:
  "FeatureMapKey sample_env sample_bonus = Inr ''weapon_named./Axe''
   \<and> FeatureMapKey sample_env
        (sample_bonus\<lparr>SpecializationCriteria := \<lparr>Compare = Is, Qualifier = ''Throwing''\<rparr>\<rparr>)
       = Inr ''weapon_named.*''
   \<and> FeatureMapKey sample_env (sample_bonus\<lparr>SelectionType := WithRequiredSkill\<rparr>)
       = Inr ''skill.name/Axe''
   \<and> FeatureMapKey sample_env (sample_bonus\<lparr>SelectionType := ThisWeapon\<rparr>)
       = Inr ThisWeaponID
   \<and> FeatureMapKey sample_env (sample_bonus\<lparr>Percent := True, Amount := 20000\<rparr>)
       = FeatureMapKey sample_env sample_bonus"
  using FeatureMapKey_cases [of sample_bonus sample_env
      "sample_bonus\<lparr>Percent := True, Amount := 20000\<rparr>"]
    FeatureMapKey_cases [of
      "sample_bonus\<lparr>SpecializationCriteria := \<lparr>Compare = Is, Qualifier = ''Throwing''\<rparr>\<rparr>"
      sample_env sample_bonus]
    FeatureMapKey_cases [of "sample_bonus\<lparr>SelectionType := WithRequiredSkill\<rparr>"
      sample_env sample_bonus]
    FeatureMapKey_cases [of "sample_bonus\<lparr>SelectionType := ThisWeapon\<rparr>"
      sample_env sample_bonus]
  by (simp add: sample_bonus_def sample_env_def WeaponNamedIDPrefix_def FeatureMapKey_def
      buildKey_def)

subsection \<open>ContainedWeightPrereq\<close>

text \<open>
  C3. For every Has value and every outcome of the variant's own check, Satisfied
  returns the outcome when Has is true and its negation when Has is false. A tooltip
  buffer that is not \<open>nil\<close> gets text appended exactly when the returned result is
  false, and the phrase in that text is \<open>"has"\<close> when Has is true and
  \<open>"does not have"\<close> when Has is false, whatever the result. The variant's own check is
  false when \<open>exclude\<close> is not an equipment item, true for an item that is not a
  container, and the weight criterion applied to the extended weight less the adjusted
  weight for a container.
\<close>

theorem Satisfied_truth_table:
  "Satisfied env c entity exclude tooltip prfx =
     (let variant =
            (case exclude of
               EquipmentValue eqp \<Rightarrow>
                 if Container eqp
                 then WeightCriteria_Matches (WeightCriteria c)
                        (ExtendedWeight eqp False (DefaultWeightUnits (SheetSettingsFor entity))
                           - AdjustedWeight eqp False (DefaultWeightUnits (SheetSettingsFor entity)))
                 else True
             | _ \<Rightarrow> False);
          final = (if Has c then variant else \<not> variant)
      in (final,
          case tooltip of
            None \<Rightarrow> None
          | Some buffer \<Rightarrow>
              if final then Some buffer
              else Some (buffer @ prfx
                           @ (if Has c then i18n_Text env ''has''
                              else i18n_Text env ''does not have'')
                           @ i18n_Text env '' a contained weight which ''
                           @ WeightCriteria_String env (WeightCriteria c))))"
  by (simp add: Satisfied_def HasText_def Let_def split: any_value.split option.split)

theorem Satisfied_truth_table_witness:
  "Satisfied sample_env \<lparr>Has = True, WeightCriteria = sample_criteria\<rparr> sample_entity
       (EquipmentValue sample_rope) (Some ''Sack'') '': ''
     = (True, Some ''Sack'')
   \<and> Satisfied sample_env \<lparr>Has = False, WeightCriteria = sample_criteria\<rparr> sample_entity
       (EquipmentValue sample_rope) (Some ''Sack'') '': ''
     = (False, Some ''Sack: does not have a contained weight which matches'')
   \<and> Satisfied sample_env \<lparr>Has = True, WeightCriteria = sample_criteria\<rparr> sample_entity
       (EquipmentValue sample_backpack) (Some ''Sack'') '': ''
     = (False, Some ''Sack: has a contained weight which matches'')
   \<and> Satisfied sample_env \<lparr>Has = False, WeightCriteria = sample_criteria\<rparr> sample_entity
       (EquipmentValue sample_backpack) (Some ''Sack'') '': ''
     = (True, Some ''Sack'')
   \<and> Satisfied sample_env \<lparr>Has = True, WeightCriteria = sample_criteria\<rparr> sample_entity
       (EquipmentValue sample_backpack) None '': ''
     = (False, None)"
  using Satisfied_truth_table [of sample_env "\<lparr>Has = True, WeightCriteria = sample_criteria\<rparr>"
      sample_entity "EquipmentValue sample_rope" "Some ''Sack''" "'': ''"]
    Satisfied_truth_table [of sample_env "\<lparr>Has = False, WeightCriteria = sample_criteria\<rparr>"
      sample_entity "EquipmentValue sample_rope" "Some ''Sack''" "'': ''"]
    Satisfied_truth_table [of sample_env "\<lparr>Has = True, WeightCriteria = sample_criteria\<rparr>"
      sample_entity "EquipmentValue sample_backpack" "Some ''Sack''" "'': ''"]
    Satisfied_truth_table [of sample_env "\<lparr>Has = False, WeightCriteria = sample_criteria\<rparr>"
      sample_entity "EquipmentValue sample_backpack" "Some ''Sack''" "'': ''"]
    Satisfied_truth_table [of sample_env "\<lparr>Has = True, WeightCriteria = sample_criteria\<rparr>"
      sample_entity "EquipmentValue sample_backpack" None "'': ''"]
  by (simp add: sample_env_def sample_entity_def sample_rope_def sample_backpack_def
      sample_criteria_def SheetSettingsFor_def WeightCriteria_Matches_def)

text \<open>
  C1, as the code has it. The check of the variant is false when \<open>exclude\<close> is not an
  equipment item and true when it is an item that is not a container, and Has then
  decides: for every entity, tooltip buffer and prefix, Satisfied returns the negation
  of Has when \<open>exclude\<close> is not an equipment item (false only when Has is true), and Has
  itself when \<open>exclude\<close> is an equipment item that is not a container.
\<close>

theorem Satisfied_not_container:
  "((\<forall>eqp. exclude \<noteq> EquipmentValue eqp)
      \<longrightarrow> fst (Satisfied env c entity exclude tooltip prfx) = (\<not> Has c))
   \<and> (\<forall>eqp. exclude = EquipmentValue eqp \<and> \<not> Container eqp
      \<longrightarrow> fst (Satisfied env c entity exclude tooltip prfx) = Has c)"
  by (cases exclude) (simp_all add: Satisfied_def Let_def)

theorem Satisfied_not_container_witness:
  "fst (Satisfied sample_env \<lparr>Has = True, WeightCriteria = sample_criteria\<rparr> sample_entity
          OtherValue None []) = False
   \<and> fst (Satisfied sample_env \<lparr>Has = False, WeightCriteria = sample_criteria\<rparr> sample_entity
          NilValue None []) = True
   \<and> \<not> Container sample_rope
   \<and> fst (Satisfied sample_env \<lparr>Has = True, WeightCriteria = sample_criteria\<rparr> sample_entity
          (EquipmentValue sample_rope) None []) = True"
  using Satisfied_not_container [of OtherValue sample_env
      "\<lparr>Has = True, WeightCriteria = sample_criteria\<rparr>" sample_entity None "[]"]
    Satisfied_not_container [of NilValue sample_env
      "\<lparr>Has = False, WeightCriteria = sample_criteria\<rparr>" sample_entity None "[]"]
    Satisfied_not_container [of "EquipmentValue sample_rope" sample_env
      "\<lparr>Has = True, WeightCriteria = sample_criteria\<rparr>" sample_entity None "[]"]
  by (simp add: sample_rope_def)

text \<open>
  The claim as it is written, that Satisfied returns false whenever \<open>exclude\<close> is not an
  equipment container, fails for a value that is not an equipment item when Has is
  false, and for an equipment item that is not a container when Has is true.
\<close>

theorem Satisfied_not_container_counterexample:
  "\<not> (\<forall>env c entity exclude tooltip prfx.
        (\<forall>eqp. exclude = EquipmentValue eqp \<longrightarrow> \<not> Container eqp)
        \<longrightarrow> \<not> fst (Satisfied env c entity exclude tooltip prfx))"
proof
  assume all: "\<forall>env c entity exclude tooltip prfx.
        (\<forall>eqp. exclude = EquipmentValue eqp \<longrightarrow> \<not> Container eqp)
        \<longrightarrow> \<not> fst (Satisfied env c entity exclude tooltip prfx)"
  have "\<forall>eqp. OtherValue = EquipmentValue eqp \<longrightarrow> \<not> Container eqp"
    by simp
  with all have "\<not> fst (Satisfied sample_env \<lparr>Has = False, WeightCriteria = sample_criteria\<rparr>
      sample_entity OtherValue None [])"
    by blast
  then show False
    by (simp add: Satisfied_def)
qed

subsection \<open>CloneWithoutLevelOrPoints\<close>

text \<open>
  C9. For every SkillDefault \<open>s\<close> in the store, CloneWithoutLevelOrPoints returns a pointer
  to a new object (one that was not in the store before) whose Level, AdjLevel and Points
  are zero and whose DefaultType, Name, Specialization and Modifier are those of \<open>s\<close>; every
  object that was in the store, \<open>s\<close> included, is left as it was.
\<close>

theorem CloneWithoutLevelOrPoints_frame:
  assumes "s < length h"
  shows "\<exists>p h'. CloneWithoutLevelOrPoints h s = Some (p, h')
           \<and> \<not> p < length h \<and> p < length h'
           \<and> Level (h' ! p) = 0 \<and> AdjLevel (h' ! p) = 0 \<and> Points (h' ! p) = 0
           \<and> DefaultType (h' ! p) = DefaultType (h ! s)
           \<and> Name (h' ! p) = Name (h ! s)
           \<and> Specialization (h' ! p) = Specialization (h ! s)
           \<and> Modifier (h' ! p) = Modifier (h ! s)
           \<and> (\<forall>a < length h. h' ! a = h ! a)"
  using assms by (simp add: CloneWithoutLevelOrPoints_def Let_def nth_append)

theorem CloneWithoutLevelOrPoints_frame_witness:
  "(0::nat) < length [sample_default]
   \<and> (\<exists>p h'. CloneWithoutLevelOrPoints [sample_default] 0 = Some (p, h')
           \<and> \<not> p < length [sample_default] \<and> p < length h'
           \<and> Level (h' ! p) = 0 \<and> AdjLevel (h' ! p) = 0 \<and> Points (h' ! p) = 0
           \<and> DefaultType (h' ! p) = DefaultType ([sample_default] ! 0)
           \<and> Name (h' ! p) = Name ([sample_default] ! 0)
           \<and> Specialization (h' ! p) = Specialization ([sample_default] ! 0)
           \<and> Modifier (h' ! p) = Modifier ([sample_default] ! 0)
           \<and> (\<forall>a < length [sample_default]. h' ! a = [sample_default] ! a))"
proof -
  have len: "(0::nat) < length [sample_default]" by simp
  from CloneWithoutLevelOrPoints_frame [OF len] len show ?thesis by blast
qed

subsection \<open>Hash\<close>

lemma unat_of_char_byte: "unat (of_char c :: byte) = of_char c"
proof -
  have "(of_char c :: byte) = of_nat (of_char c)"
    by (simp add: of_nat_of_char)
  then have "unat (of_char c :: byte) = (of_char c :: nat) mod 2 ^ LENGTH(8)"
    by (simp only: unat_of_nat)
  then show ?thesis
    by simp
qed

lemma inj_of_char_byte: "inj (of_char :: char \<Rightarrow> byte)"
proof (rule injI)
  fix c d
  assume "(of_char c :: byte) = of_char d"
  then have "unat (of_char c :: byte) = unat (of_char d :: byte)"
    by simp
  then show "c = d"
    by (simp only: unat_of_char_byte of_char_eq_iff)
qed

lemma bytes_of_inject: "bytes_of s = bytes_of t \<longleftrightarrow> s = t"
  by (simp add: bytes_of_def inj_map_eq_map inj_of_char_byte)

lemma bytes_of_append: "bytes_of (s @ t) = bytes_of s @ bytes_of t"
  by (simp add: bytes_of_def)

lemma length_LittleEndian_int64: "length (LittleEndian_int64 v) = 8"
  by (simp add: LittleEndian_int64_def)

lemma bit_LittleEndian_int64:
  assumes "n < 64"
  shows "bit (LittleEndian_int64 v ! (n div 8)) (n mod 8) = bit v n"
proof -
  have "n div 8 < 8"
    using assms by simp
  then have "LittleEndian_int64 v ! (n div 8) = ucast (drop_bit (8 * (n div 8)) v)"
    by (simp add: LittleEndian_int64_def)
  then show ?thesis
    by (simp add: bit_ucast_iff bit_drop_bit_eq)
qed

lemma LittleEndian_int64_inject:
  "LittleEndian_int64 a = LittleEndian_int64 b \<longleftrightarrow> a = b"
proof
  assume eq: "LittleEndian_int64 a = LittleEndian_int64 b"
  show "a = b"
  proof (rule bit_word_eqI)
    fix n
    assume "n < LENGTH(64)"
    then have "n < 64" by simp
    then have "bit a n = bit (LittleEndian_int64 a ! (n div 8)) (n mod 8)"
      and "bit b n = bit (LittleEndian_int64 b ! (n div 8)) (n mod 8)"
      by (simp_all add: bit_LittleEndian_int64)
    with eq show "bit a n = bit b n"
      by simp
  qed
qed simp

lemma Hash_bytes:
  "Hash s h = h @ bytes_of (DefaultType s @ Name s @ Specialization s)
                @ LittleEndian_int64 (Modifier s)"
  by (simp add: Hash_def Let_def bytes_of_append)

text \<open>
  C2, as the code has it. The three strings are written one after the other with
  nothing between them, so the bytes do not tell where one string ends. What holds: for
  every pair of SkillDefault values and every state of the hasher, Hash writes the same
  bytes for both exactly when DefaultType, Name and Specialization joined together are
  the same text for both and the Modifier fields are equal. So equal values of the four
  fields give equal bytes whatever Level, AdjLevel and Points hold, and a different
  Modifier or a different joined text gives different bytes.
\<close>

theorem Hash_equal_iff:
  "Hash a h = Hash b h \<longleftrightarrow>
     DefaultType a @ Name a @ Specialization a = DefaultType b @ Name b @ Specialization b
     \<and> Modifier a = Modifier b"
proof -
  have "Hash a h = Hash b h \<longleftrightarrow>
      bytes_of (DefaultType a @ Name a @ Specialization a) @ LittleEndian_int64 (Modifier a)
      = bytes_of (DefaultType b @ Name b @ Specialization b) @ LittleEndian_int64 (Modifier b)"
    by (simp add: Hash_bytes)
  also have "\<dots> \<longleftrightarrow>
      bytes_of (DefaultType a @ Name a @ Specialization a)
        = bytes_of (DefaultType b @ Name b @ Specialization b)
      \<and> LittleEndian_int64 (Modifier a) = LittleEndian_int64 (Modifier b)"
    by (rule append_eq_append_conv) (simp add: length_LittleEndian_int64)
  finally show ?thesis
    by (simp only: bytes_of_inject LittleEndian_int64_inject)
qed

theorem Hash_equal_iff_witness:
  "Hash sample_default [] = Hash (sample_default\<lparr>Level := 0, AdjLevel := 0, Points := 0\<rparr>) []
   \<and> Hash sample_default [] \<noteq> Hash (sample_default\<lparr>Modifier := 20000\<rparr>) []
   \<and> Hash sample_default [] \<noteq> Hash (sample_default\<lparr>Name := ''Axe''\<rparr>) []"
  using Hash_equal_iff [of sample_default "[]"
      "sample_default\<lparr>Level := 0, AdjLevel := 0, Points := 0\<rparr>"]
    Hash_equal_iff [of sample_default "[]" "sample_default\<lparr>Modifier := 20000\<rparr>"]
    Hash_equal_iff [of sample_default "[]" "sample_default\<lparr>Name := ''Axe''\<rparr>"]
  by (simp add: sample_default_def)

text \<open>
  The claim as it is written fails for two values that differ in Name and
  Specialization and agree once joined: the name \<open>"Guns"\<close> with the specialization
  \<open>"Pistol"\<close>, and the name \<open>"GunsPistol"\<close> with no specialization.
\<close>

theorem Hash_equal_iff_counterexample:
  "\<not> (\<forall>a b h. DefaultType a \<noteq> DefaultType b \<or> Name a \<noteq> Name b
          \<or> Specialization a \<noteq> Specialization b \<or> Modifier a \<noteq> Modifier b
        \<longrightarrow> Hash a h \<noteq> Hash b h)"
proof
  assume all: "\<forall>a b h. DefaultType a \<noteq> DefaultType b \<or> Name a \<noteq> Name b
          \<or> Specialization a \<noteq> Specialization b \<or> Modifier a \<noteq> Modifier b
        \<longrightarrow> Hash a h \<noteq> Hash b h"
  let ?a = "sample_default\<lparr>Name := ''Guns'', Specialization := ''Pistol''\<rparr>"
  let ?b = "sample_default\<lparr>Name := ''GunsPistol'', Specialization := ''''\<rparr>"
  have "Name ?a \<noteq> Name ?b"
    by simp
  with all have "Hash ?a [] \<noteq> Hash ?b []"
    by blast
  then show False
    by (simp add: Hash_def bytes_of_def)
qed

subsection \<open>Resolving the level\<close>

lemma best_loop_cached:
  "\<forall>sk \<in> set sks. LevelData_Level sk = CalculateLevel sk excludes
     \<Longrightarrow> best_loop excludes sks b = bestFast_loop sks b"
  by (induction sks arbitrary: b) (simp_all add: Let_def)

lemma best_cached:
  assumes "\<forall>sk \<in> set (SkillNamed entity (NameWithReplacements s nameOrder)
              (SpecializationWithReplacements s specOrder) requirePoints excludes).
             LevelData_Level sk = CalculateLevel sk excludes"
  shows "best entity s nameOrder specOrder requirePoints excludes
           = bestFast entity s nameOrder specOrder requirePoints excludes"
  using assms by (simp add: best_def bestFast_def best_loop_cached)

lemma sdiv_pos_divisor:
  fixes k l :: int
  assumes "0 < l"
  shows "k sdiv l = (if 0 \<le> k then k div l else - ((- k) div l))"
proof (cases "k = 0")
  case True
  then show ?thesis by (simp add: signed_divide_int_def)
next
  case False
  with assms show ?thesis by (auto simp: signed_divide_int_def sgn_if)
qed

lemma sint_word_of_int_small:
  assumes "- (2 ^ 63) \<le> k" "k < 2 ^ 63"
  shows "sint (word_of_int k :: int64) = k"
  using assms by (simp add: sint_sbintrunc' signed_take_bit_int_eq_self)

lemma half_sdiv1:
  fixes x :: int
  shows "(x * 10000) sdiv 20000 = x sdiv 2"
proof (cases "0 \<le> x")
  case True
  then show ?thesis by (simp add: sdiv_pos_divisor)
next
  case False
  define n where "n = - x"
  with False have n: "0 < n" "x = - n" by simp_all
  have "(n * 10000) div 20000 = n div 2"
    by simp
  with n show ?thesis
    by (simp add: sdiv_pos_divisor)
qed

lemma half_sdiv2:
  fixes x :: int
  shows "(x sdiv 2) sdiv 10000 = x sdiv 20000"
proof (cases "0 \<le> x")
  case True
  then have "0 \<le> x div 2" by simp
  with True show ?thesis
    by (simp add: sdiv_pos_divisor div_mult2_eq [symmetric])
next
  case False
  define n where "n = - x"
  with False have n: "0 < n" "x = - n" by simp_all
  have a: "(n div 2) div 10000 = n div 20000"
    by (simp add: div_mult2_eq [symmetric])
  have b: "0 \<le> n div 2"
    using n by simp
  show ?thesis
  proof (cases "n div 2 = 0")
    case True
    then have "n div 20000 = 0"
      using a by simp
    with True n show ?thesis
      by (simp add: sdiv_pos_divisor)
  next
    case False
    with b have "0 < n div 2" by simp
    with n a show ?thesis
      by (simp add: sdiv_pos_divisor)
  qed
qed

lemma sdiv_bound2:
  fixes x :: int
  shows "\<bar>x sdiv 2\<bar> \<le> \<bar>x\<bar>" and "\<bar>x sdiv 20000 * 10000\<bar> \<le> \<bar>x\<bar>"
  by (cases "0 \<le> x"; simp add: sdiv_pos_divisor; linarith)+

lemma fxp_half_trunc:
  assumes "- (2 ^ 63 div 10000) \<le> sint b" and "sint b \<le> 2 ^ 63 div 10000"
  shows "sint (fxp_Trunc (fxp_Div b fxp_Two)) = (sint b sdiv 20000) * 10000"
proof -
  define x where "x = sint b"
  have x: "- 922337203685477 \<le> x" "x \<le> 922337203685477"
    using assms by (simp_all add: x_def)
  have c1: "sint (10000 :: int64) = 10000" and c2: "sint (20000 :: int64) = 20000"
    by simp_all
  have "sint (b * 10000) = signed_take_bit 63 (x * 10000)"
    by (simp add: sint_word_mult c1 x_def)
  also have "\<dots> = x * 10000"
    using x by (intro signed_take_bit_int_eq_self) simp_all
  finally have m: "sint (b * 10000) = x * 10000" .
  have d: "fxp_Div b fxp_Two = word_of_int (x sdiv 2)"
    by (simp add: fxp_Div_def fxp_Two_def fxp_Multiplier_def go_div_def m c2 half_sdiv1)
  have "\<bar>x sdiv 2\<bar> \<le> \<bar>x\<bar>"
    by (rule sdiv_bound2)
  with x have half: "- (2 ^ 63) \<le> x sdiv 2" "x sdiv 2 < 2 ^ 63"
    by simp_all
  then have sh: "sint (word_of_int (x sdiv 2) :: int64) = x sdiv 2"
    by (rule sint_word_of_int_small)
  have t: "fxp_Trunc (fxp_Div b fxp_Two) = word_of_int (x sdiv 20000 * 10000)"
    by (simp add: d fxp_Trunc_def fxp_Multiplier_def go_div_def sh c1 half_sdiv2)
  have "\<bar>x sdiv 20000 * 10000\<bar> \<le> \<bar>x\<bar>"
    by (rule sdiv_bound2)
  then have "- (2 ^ 63) \<le> x sdiv 20000 * 10000" "x sdiv 20000 * 10000 < 2 ^ 63"
    using x by simp_all
  then have "sint (word_of_int (x sdiv 20000 * 10000) :: int64) = x sdiv 20000 * 10000"
    by (rule sint_word_of_int_small)
  then show ?thesis
    by (simp add: t x_def)
qed

lemma fxp_half_floor:
  assumes "0 \<le> sint b" and "sint b \<le> 2 ^ 63 div 10000"
  shows "sint (fxp_Trunc (fxp_Div b fxp_Two)) = (sint b div 20000) * 10000"
proof -
  from assms have "sint (fxp_Trunc (fxp_Div b fxp_Two)) = (sint b sdiv 20000) * 10000"
    by (intro fxp_half_trunc) simp_all
  with assms(1) show ?thesis
    by (simp add: sdiv_pos_divisor)
qed

lemma best_same_lookup:
  assumes "NameWithReplacements s nameOrder' = NameWithReplacements s nameOrder"
    and "SpecializationWithReplacements s specOrder' = SpecializationWithReplacements s specOrder"
  shows "bestFast entity s nameOrder' specOrder' requirePoints excludes
           = bestFast entity s nameOrder specOrder requirePoints excludes"
  using assms by (simp add: bestFast_def)

text \<open>
  C5, as the code has it. Each path ranges over the replacement map on its own, once
  for the name and once for the specialization, and Go leaves the order of each loop
  open: where the substituted name depends on the order, the two paths can look up
  different skills. What holds: for every SkillDefault, entity, replacement map,
  requirePoints flag, exclusion set and ruleOf20 flag, if every matching skill's cached
  level (\<open>LevelData.Level\<close>) equals the level \<open>CalculateLevel(excludes)\<close> computes for it,
  and either the type is none of Skill, Parry and Block, or, for the name and for the
  specialization, the two paths visit the map in the same order or the text is one on
  which the order does not matter (at most one marker; or no key and no value with a
  marker and tokens separated by text that is part of no key), then SkillLevel and
  SkillLevelFast return the same value. The four identifiers of the switch are distinct,
  as the Go compiler demands of the constant cases of a switch.
\<close>

theorem SkillLevel_eq_SkillLevelFast:
  assumes "distinct [SkillID env, ParryID env, BlockID env, DodgeID env]"
    and "\<forall>sk \<in> set (SkillNamed entity (NameWithReplacements s nameOrder)
              (SpecializationWithReplacements s specOrder) requirePoints excludes).
             LevelData_Level sk = CalculateLevel sk excludes"
    and "same_map nameOrder nameOrder'" and "same_map specOrder specOrder'"
    and "DefaultType s \<notin> {SkillID env, ParryID env, BlockID env}
         \<or> ((nameOrder' = nameOrder \<or> order_free nameOrder (Name s))
            \<and> (specOrder' = specOrder \<or> order_free specOrder (Specialization s)))"
  shows "SkillLevel env s entity nameOrder specOrder requirePoints excludes ruleOf20
           = SkillLevelFast env s entity nameOrder' specOrder' requirePoints excludes ruleOf20"
proof (cases "DefaultType s \<in> {SkillID env, ParryID env, BlockID env}")
  case False
  then show ?thesis
    by (simp add: SkillLevel_def SkillLevelFast_def Type_def)
next
  case True
  with assms(5) have name: "nameOrder' = nameOrder \<or> order_free nameOrder (Name s)"
    and spec: "specOrder' = specOrder \<or> order_free specOrder (Specialization s)"
    by blast+
  from name have n: "NameWithReplacements s nameOrder' = NameWithReplacements s nameOrder"
    using ApplyNameables_order [OF assms(3), of "Name s"]
    by (auto simp: NameWithReplacements_def)
  from spec have sp: "SpecializationWithReplacements s specOrder'
      = SpecializationWithReplacements s specOrder"
    using ApplyNameables_order [OF assms(4), of "Specialization s"]
    by (auto simp: SpecializationWithReplacements_def)
  have b: "best entity s nameOrder specOrder requirePoints excludes
           = bestFast entity s nameOrder' specOrder' requirePoints excludes"
    using best_cached [OF assms(2)] best_same_lookup [OF n sp] by simp
  show ?thesis
    using assms(1) by (auto simp add: SkillLevel_def SkillLevelFast_def b)
qed

theorem SkillLevel_eq_SkillLevelFast_witness:
  "distinct [SkillID sample_env, ParryID sample_env, BlockID sample_env, DodgeID sample_env]
   \<and> same_map [(''w'', ''Sword''), (''q'', ''Axe'')] [(''q'', ''Axe''), (''w'', ''Sword'')]
   \<and> SkillNamed sample_entity
        (NameWithReplacements (sample_sword\<lparr>Name := ''@w@''\<rparr>)
           [(''w'', ''Sword''), (''q'', ''Axe'')])
        (SpecializationWithReplacements (sample_sword\<lparr>Name := ''@w@''\<rparr>)
           [(''w'', ''Sword''), (''q'', ''Axe'')]) False Map.empty
       = [\<lparr>LevelData_Level = 120000, CalculateLevel = (\<lambda>excludes. 120000)\<rparr>,
          \<lparr>LevelData_Level = 100000, CalculateLevel = (\<lambda>excludes. 100000)\<rparr>]
   \<and> SkillLevel sample_env (sample_sword\<lparr>Name := ''@w@''\<rparr>) sample_entity
        [(''w'', ''Sword''), (''q'', ''Axe'')] [(''w'', ''Sword''), (''q'', ''Axe'')]
        False Map.empty False
       = SkillLevelFast sample_env (sample_sword\<lparr>Name := ''@w@''\<rparr>) sample_entity
           [(''q'', ''Axe''), (''w'', ''Sword'')] [(''q'', ''Axe''), (''w'', ''Sword'')]
           False Map.empty False
   \<and> SkillLevelFast sample_env (sample_sword\<lparr>Name := ''@w@''\<rparr>) sample_entity
        [(''q'', ''Axe''), (''w'', ''Sword'')] [(''q'', ''Axe''), (''w'', ''Sword'')]
        False Map.empty False = 130000"
proof -
  let ?s = "sample_sword\<lparr>Name := ''@w@''\<rparr>"
  let ?m = "[(''w'', ''Sword''), (''q'', ''Axe'')]"
  let ?m' = "[(''q'', ''Axe''), (''w'', ''Sword'')]"
  have ids: "distinct [SkillID sample_env, ParryID sample_env, BlockID sample_env,
      DodgeID sample_env]"
    by (simp add: sample_env_def)
  have same: "same_map ?m ?m'"
    by (auto simp: same_map_def)
  have skills: "SkillNamed sample_entity (NameWithReplacements ?s ?m)
        (SpecializationWithReplacements ?s ?m) False Map.empty
       = [\<lparr>LevelData_Level = 120000, CalculateLevel = (\<lambda>excludes. 120000)\<rparr>,
          \<lparr>LevelData_Level = 100000, CalculateLevel = (\<lambda>excludes. 100000)\<rparr>]"
    by (simp add: sample_entity_def sample_sword_def NameWithReplacements_def
        SpecializationWithReplacements_def ApplyNameables_def)
  have cached: "\<forall>sk \<in> set (SkillNamed sample_entity (NameWithReplacements ?s ?m)
        (SpecializationWithReplacements ?s ?m) False Map.empty).
      LevelData_Level sk = CalculateLevel sk Map.empty"
    by (simp add: skills)
  have "''@w@'' = [] @ tokens_text [(''w'', [])] \<and> CHR ''@'' \<notin> set []
      \<and> separated (fst ` set ?m) [(''w'', [])]"
    by simp
  then have "token_text (fst ` set ?m) ''@w@''"
    unfolding token_text_def by blast
  then have name: "order_free ?m (Name ?s)"
    by (simp add: order_free_def sample_sword_def)
  have spec: "order_free ?m (Specialization ?s)"
    by (simp add: order_free_def sample_sword_def)
  from name spec have alike: "DefaultType ?s \<notin> {SkillID sample_env, ParryID sample_env,
        BlockID sample_env}
      \<or> ((?m' = ?m \<or> order_free ?m (Name ?s)) \<and> (?m' = ?m \<or> order_free ?m (Specialization ?s)))"
    by blast
  have fast: "SkillLevelFast sample_env ?s sample_entity ?m' ?m' False Map.empty False = 130000"
    by code_simp
  show ?thesis
    using SkillLevel_eq_SkillLevelFast [OF ids cached same same alike, of False]
      ids same skills fast
    by simp
qed

text \<open>
  The claim as it is written fails at the name \<open>"@a@b@a@"\<close> and the map that sends \<open>a\<close>
  to \<open>x\<close> and \<open>b\<close> to \<open>y\<close>: visiting \<open>a\<close> first the full path looks up \<open>"xbx"\<close> and finds a
  skill of level 12, visiting \<open>b\<close> first the fast path looks up \<open>"@aya@"\<close> and finds none,
  and every cached level is the computed one.
\<close>

theorem SkillLevel_eq_SkillLevelFast_counterexample:
  "\<not> (\<forall>env s entity nameOrder specOrder nameOrder' specOrder' requirePoints excludes ruleOf20.
        distinct [SkillID env, ParryID env, BlockID env, DodgeID env]
        \<and> same_map nameOrder specOrder \<and> same_map nameOrder nameOrder'
        \<and> same_map specOrder specOrder'
        \<and> (\<forall>sk \<in> set (SkillNamed entity (NameWithReplacements s nameOrder)
                (SpecializationWithReplacements s specOrder) requirePoints excludes).
               LevelData_Level sk = CalculateLevel sk excludes)
        \<and> (\<forall>sk \<in> set (SkillNamed entity (NameWithReplacements s nameOrder')
                (SpecializationWithReplacements s specOrder') requirePoints excludes).
               LevelData_Level sk = CalculateLevel sk excludes)
        \<longrightarrow> SkillLevel env s entity nameOrder specOrder requirePoints excludes ruleOf20
              = SkillLevelFast env s entity nameOrder' specOrder' requirePoints excludes
                  ruleOf20)"
proof
  assume all: "\<forall>env s entity nameOrder specOrder nameOrder' specOrder' requirePoints excludes
        ruleOf20.
        distinct [SkillID env, ParryID env, BlockID env, DodgeID env]
        \<and> same_map nameOrder specOrder \<and> same_map nameOrder nameOrder'
        \<and> same_map specOrder specOrder'
        \<and> (\<forall>sk \<in> set (SkillNamed entity (NameWithReplacements s nameOrder)
                (SpecializationWithReplacements s specOrder) requirePoints excludes).
               LevelData_Level sk = CalculateLevel sk excludes)
        \<and> (\<forall>sk \<in> set (SkillNamed entity (NameWithReplacements s nameOrder')
                (SpecializationWithReplacements s specOrder') requirePoints excludes).
               LevelData_Level sk = CalculateLevel sk excludes)
        \<longrightarrow> SkillLevel env s entity nameOrder specOrder requirePoints excludes ruleOf20
              = SkillLevelFast env s entity nameOrder' specOrder' requirePoints excludes
                  ruleOf20"
  let ?s = "sample_sword\<lparr>Name := ''@a@b@a@''\<rparr>"
  let ?ab = "[(''a'', ''x''), (''b'', ''y'')]"
  let ?ba = "[(''b'', ''y''), (''a'', ''x'')]"
  have full_name: "NameWithReplacements ?s ?ab = ''xbx''"
    and fast_name: "NameWithReplacements ?s ?ba = ''@aya@''"
    and spec: "SpecializationWithReplacements ?s ?ab = []"
    by (simp_all add: NameWithReplacements_def SpecializationWithReplacements_def
        ApplyNameables_def sample_sword_def)
  have full: "SkillLevel sample_env ?s sample_entity ?ab ?ab False Map.empty False = 130000"
    and fast: "SkillLevelFast sample_env ?s sample_entity ?ba ?ab False Map.empty False = fxp_Min"
    and ne: "(130000 :: fxp_Int) \<noteq> fxp_Min"
    by code_simp+
  have "distinct [SkillID sample_env, ParryID sample_env, BlockID sample_env, DodgeID sample_env]
      \<and> same_map ?ab ?ab \<and> same_map ?ab ?ba \<and> same_map ?ab ?ab
      \<and> (\<forall>sk \<in> set (SkillNamed sample_entity (NameWithReplacements ?s ?ab)
              (SpecializationWithReplacements ?s ?ab) False Map.empty).
             LevelData_Level sk = CalculateLevel sk Map.empty)
      \<and> (\<forall>sk \<in> set (SkillNamed sample_entity (NameWithReplacements ?s ?ba)
              (SpecializationWithReplacements ?s ?ab) False Map.empty).
             LevelData_Level sk = CalculateLevel sk Map.empty)"
    unfolding full_name fast_name spec
    by (auto simp: sample_env_def same_map_def sample_entity_def)
  with all have "SkillLevel sample_env ?s sample_entity ?ab ?ab False Map.empty False
      = SkillLevelFast sample_env ?s sample_entity ?ba ?ab False Map.empty False"
    by blast
  then show False
    unfolding full fast using ne by simp
qed

text \<open>
  C6, as the code has it. \<open>Trunc\<close> rounds towards zero, which is the floor for a level
  that is not negative and one more than the floor for a negative level that is not a
  multiple of two. What holds: for every SkillDefault whose type is Parry (Block) and
  every entity, SkillLevel returns the Min sentinel unchanged when the best matching
  level is the sentinel, as it is when no skill matches. Otherwise it computes
  \<open>v = Trunc(Div(best, 2)) + 3 + ParryBonus\<close> (\<open>BlockBonus\<close>) in 64-bit fixed-point
  arithmetic that wraps around, and returns \<open>v + Modifier\<close>, except when \<open>v\<close> is itself
  the bit pattern of the sentinel: then it returns the sentinel and adds no Modifier.
  When the stored best level lies between \<open>-(2^63 div 10000)\<close> and \<open>2^63 div 10000\<close>, so
  that multiplying it by 10000 does not wrap around, \<open>Trunc(Div(best, 2))\<close> is half the
  best level rounded towards zero to a whole number, and this is \<open>floor(best / 2)\<close> when
  the best level is not negative. A best level of 12 with bonus 0 gives 9, and 10 with
  Modifier +1. The four identifiers of the switch are distinct, as the Go compiler
  demands of the constant cases of a switch.
\<close>

theorem SkillLevel_Parry_Block:
  assumes "distinct [SkillID env, ParryID env, BlockID env, DodgeID env]"
  shows "(DefaultType s = ParryID env \<longrightarrow>
            SkillLevel env s entity nameOrder specOrder requirePoints excludes ruleOf20 =
              (let b = best entity s nameOrder specOrder requirePoints excludes in
               if b = fxp_Min then fxp_Min
               else let v = fxp_Trunc (fxp_Div b fxp_Two) + fxp_Three + ParryBonus entity in
                    if v = fxp_Min then fxp_Min else v + Modifier s))
         \<and> (DefaultType s = BlockID env \<longrightarrow>
            SkillLevel env s entity nameOrder specOrder requirePoints excludes ruleOf20 =
              (let b = best entity s nameOrder specOrder requirePoints excludes in
               if b = fxp_Min then fxp_Min
               else let v = fxp_Trunc (fxp_Div b fxp_Two) + fxp_Three + BlockBonus entity in
                    if v = fxp_Min then fxp_Min else v + Modifier s))
         \<and> (SkillNamed entity (NameWithReplacements s nameOrder)
               (SpecializationWithReplacements s specOrder) requirePoints excludes = []
             \<longrightarrow> best entity s nameOrder specOrder requirePoints excludes = fxp_Min)
         \<and> (- (2 ^ 63 div 10000) \<le> sint b \<and> sint b \<le> 2 ^ 63 div 10000
             \<longrightarrow> sint (fxp_Trunc (fxp_Div b fxp_Two)) = (sint b sdiv 20000) * 10000)
         \<and> (0 \<le> sint b \<and> sint b \<le> 2 ^ 63 div 10000
             \<longrightarrow> sint (fxp_Trunc (fxp_Div b fxp_Two)) = (sint b div 20000) * 10000)"
proof -
  have parry: "DefaultType s = ParryID env \<longrightarrow>
            SkillLevel env s entity nameOrder specOrder requirePoints excludes ruleOf20 =
              (let b = best entity s nameOrder specOrder requirePoints excludes in
               if b = fxp_Min then fxp_Min
               else let v = fxp_Trunc (fxp_Div b fxp_Two) + fxp_Three + ParryBonus entity in
                    if v = fxp_Min then fxp_Min else v + Modifier s)"
    by (simp add: SkillLevel_def Type_def Let_def finalLevel_def)
  have block: "DefaultType s = BlockID env \<longrightarrow>
            SkillLevel env s entity nameOrder specOrder requirePoints excludes ruleOf20 =
              (let b = best entity s nameOrder specOrder requirePoints excludes in
               if b = fxp_Min then fxp_Min
               else let v = fxp_Trunc (fxp_Div b fxp_Two) + fxp_Three + BlockBonus entity in
                    if v = fxp_Min then fxp_Min else v + Modifier s)"
    using assms by (auto simp add: SkillLevel_def Type_def Let_def finalLevel_def)
  have none: "SkillNamed entity (NameWithReplacements s nameOrder)
               (SpecializationWithReplacements s specOrder) requirePoints excludes = []
             \<longrightarrow> best entity s nameOrder specOrder requirePoints excludes = fxp_Min"
    by (simp add: best_def)
  have trunc: "- (2 ^ 63 div 10000) \<le> sint b \<and> sint b \<le> 2 ^ 63 div 10000
             \<longrightarrow> sint (fxp_Trunc (fxp_Div b fxp_Two)) = (sint b sdiv 20000) * 10000"
    using fxp_half_trunc [of b] by blast
  have floor: "0 \<le> sint b \<and> sint b \<le> 2 ^ 63 div 10000
             \<longrightarrow> sint (fxp_Trunc (fxp_Div b fxp_Two)) = (sint b div 20000) * 10000"
    using fxp_half_floor [of b] by blast
  from parry block none trunc floor show ?thesis
    by blast
qed

theorem SkillLevel_Parry_Block_witness:
  "distinct [SkillID sample_env, ParryID sample_env, BlockID sample_env, DodgeID sample_env]
   \<and> best sample_entity (sample_sword\<lparr>DefaultType := ''parry''\<rparr>) [] [] False Map.empty
       = 120000
   \<and> ParryBonus sample_entity = 0
   \<and> SkillLevel sample_env (sample_sword\<lparr>DefaultType := ''parry'', Modifier := 0\<rparr>)
        sample_entity [] [] False Map.empty False = 90000
   \<and> SkillLevel sample_env (sample_sword\<lparr>DefaultType := ''parry''\<rparr>)
        sample_entity [] [] False Map.empty False = 100000
   \<and> SkillLevel sample_env (sample_sword\<lparr>DefaultType := ''block'', Modifier := 0\<rparr>)
        sample_entity [] [] False Map.empty False = 100000
   \<and> SkillLevel sample_env (sample_sword\<lparr>DefaultType := ''parry'', Name := ''Bow''\<rparr>)
        sample_entity [] [] False Map.empty False = fxp_Min
   \<and> sint (fxp_Trunc (fxp_Div 120000 fxp_Two)) = 60000
   \<and> sint (fxp_Trunc (fxp_Div (- 10000) fxp_Two)) = 0"
proof -
  have ids: "distinct [SkillID sample_env, ParryID sample_env, BlockID sample_env,
      DodgeID sample_env]"
    by (simp add: sample_env_def)
  have b12: "best sample_entity (sample_sword\<lparr>DefaultType := ''parry''\<rparr>) [] [] False Map.empty
      = 120000"
    and b12': "best sample_entity (sample_sword\<lparr>DefaultType := ''parry'', Modifier := 0\<rparr>) []
      [] False Map.empty = 120000"
    and b12'': "best sample_entity (sample_sword\<lparr>DefaultType := ''block'', Modifier := 0\<rparr>) []
      [] False Map.empty = 120000"
    and bow: "best sample_entity (sample_sword\<lparr>DefaultType := ''parry'', Name := ''Bow''\<rparr>) []
      [] False Map.empty = fxp_Min"
    and half: "fxp_Trunc (fxp_Div 120000 fxp_Two) = 60000"
    and neg: "fxp_Trunc (fxp_Div (- 10000) fxp_Two) = 0"
    and min: "(120000 :: fxp_Int) \<noteq> fxp_Min" "(90000 :: fxp_Int) \<noteq> fxp_Min"
      "(100000 :: fxp_Int) \<noteq> fxp_Min"
    by code_simp+
  show ?thesis
    using SkillLevel_Parry_Block [OF ids,
        of "sample_sword\<lparr>DefaultType := ''parry'', Modifier := 0\<rparr>"
        sample_entity "[]" "[]" False Map.empty False 120000]
      SkillLevel_Parry_Block [OF ids, of "sample_sword\<lparr>DefaultType := ''parry''\<rparr>"
        sample_entity "[]" "[]" False Map.empty False "- 10000"]
      SkillLevel_Parry_Block [OF ids,
        of "sample_sword\<lparr>DefaultType := ''block'', Modifier := 0\<rparr>"
        sample_entity "[]" "[]" False Map.empty False 120000]
      SkillLevel_Parry_Block [OF ids,
        of "sample_sword\<lparr>DefaultType := ''parry'', Name := ''Bow''\<rparr>"
        sample_entity "[]" "[]" False Map.empty False 120000]
      ids b12 b12' b12'' bow half neg min
    by (simp add: sample_env_def sample_entity_def sample_sword_def fxp_Three_def)
qed

text \<open>
  The claim as it is written fails at a negative best level: for a matching skill of level
  \<open>-1\<close>, bonus 0 and Modifier 0 the code returns 3, and \<open>floor(-1 / 2) + 3\<close> is 2.
\<close>

theorem SkillLevel_Parry_Block_counterexample:
  "\<not> (\<forall>env s entity nameOrder specOrder requirePoints excludes ruleOf20.
        DefaultType s = ParryID env
        \<and> best entity s nameOrder specOrder requirePoints excludes \<noteq> fxp_Min
        \<longrightarrow> SkillLevel env s entity nameOrder specOrder requirePoints excludes ruleOf20
              = word_of_int
                  (sint (best entity s nameOrder specOrder requirePoints excludes)
                     div 20000 * 10000)
                + fxp_Three + ParryBonus entity + Modifier s)"
proof
  assume all: "\<forall>env s entity nameOrder specOrder requirePoints excludes ruleOf20.
        DefaultType s = ParryID env
        \<and> best entity s nameOrder specOrder requirePoints excludes \<noteq> fxp_Min
        \<longrightarrow> SkillLevel env s entity nameOrder specOrder requirePoints excludes ruleOf20
              = word_of_int
                  (sint (best entity s nameOrder specOrder requirePoints excludes)
                     div 20000 * 10000)
                + fxp_Three + ParryBonus entity + Modifier s"
  let ?s = "sample_sword\<lparr>DefaultType := ''parry'', Name := ''Cursed'', Modifier := 0\<rparr>"
  have b: "best sample_entity ?s [] [] False Map.empty = - 10000"
    and code: "SkillLevel sample_env ?s sample_entity [] [] False Map.empty False = 30000"
    and spec: "word_of_int (sint (- 10000 :: fxp_Int) div 20000 * 10000)
        + fxp_Three + ParryBonus sample_entity + Modifier ?s = (20000 :: fxp_Int)"
    and ne: "(- 10000 :: fxp_Int) \<noteq> fxp_Min" "(30000 :: fxp_Int) \<noteq> 20000"
    by code_simp+
  have "DefaultType ?s = ParryID sample_env
      \<and> best sample_entity ?s [] [] False Map.empty \<noteq> fxp_Min"
    by (simp add: b ne sample_env_def)
  with all have "SkillLevel sample_env ?s sample_entity [] [] False Map.empty False
      = word_of_int (sint (best sample_entity ?s [] [] False Map.empty) div 20000 * 10000)
          + fxp_Three + ParryBonus sample_entity + Modifier ?s"
    by blast
  then show False
    unfolding b code spec using ne by simp
qed

text \<open>
  C10. For every string \<open>t\<close>, DefaultTypeIsSkillBased returns true exactly when \<open>t\<close>, with
  the surrounding white space trimmed and then put in lower case, is the Skill, Parry or
  Block identifier, and SkillBased is the same test on the DefaultType field. The switch
  of SkillLevel compares the DefaultType as it is: a SkillDefault whose DefaultType is
  none of the four identifiers byte for byte is resolved as an attribute, also when
  SkillBased holds for it.
\<close>

theorem DefaultTypeIsSkillBased_iff:
  "(DefaultTypeIsSkillBased env t \<longleftrightarrow>
      strings_ToLower env (strings_TrimSpace env t) \<in> {SkillID env, ParryID env, BlockID env})
   \<and> SkillBased env s = DefaultTypeIsSkillBased env (DefaultType s)
   \<and> (DefaultType s \<notin> {ParryID env, BlockID env, SkillID env, DodgeID env} \<longrightarrow>
        SkillLevel env s entity nameOrder specOrder requirePoints excludes ruleOf20 =
          (let level = ResolveAttributeCurrent entity (DefaultType s);
               level = (if ruleOf20 then fxp_Min_of level fxp_Twenty else level);
               level = (if UseHalfStatDefaults (SheetSettings entity)
                        then fxp_Trunc (fxp_Div level fxp_Two) + fxp_Five
                        else level)
           in finalLevel s level))"
  by (simp add: DefaultTypeIsSkillBased_def SkillBased_def skillBasedDefaultTypes_def
      SkillLevel_def SkillLevelFast_def Type_def)

theorem DefaultTypeIsSkillBased_iff_witness:
  "DefaultTypeIsSkillBased sample_env '' Skill ''
   \<and> DefaultTypeIsSkillBased sample_env ''PARRY''
   \<and> \<not> DefaultTypeIsSkillBased sample_env ''dodge''
   \<and> SkillBased sample_env (sample_sword\<lparr>DefaultType := '' Skill ''\<rparr>)
   \<and> '' Skill '' \<notin> {ParryID sample_env, BlockID sample_env, SkillID sample_env,
        DodgeID sample_env}
   \<and> SkillLevel sample_env (sample_sword\<lparr>DefaultType := '' Skill ''\<rparr>) sample_entity [] []
        False Map.empty False = 120000
   \<and> SkillLevel sample_env sample_sword sample_entity [] [] False Map.empty False = 130000"
proof -
  have lower: "strings_ToLower sample_env (strings_TrimSpace sample_env '' Skill '') = ''skill''"
    "strings_ToLower sample_env (strings_TrimSpace sample_env ''PARRY'') = ''parry''"
    "strings_ToLower sample_env (strings_TrimSpace sample_env ''dodge'') = ''dodge''"
    by code_simp+
  have raw: "'' Skill '' \<notin> {ParryID sample_env, BlockID sample_env, SkillID sample_env,
        DodgeID sample_env}"
    by (simp add: sample_env_def)
  have skill: "SkillLevel sample_env sample_sword sample_entity [] [] False Map.empty False
      = 130000"
    by code_simp
  have attr: "finalLevel (sample_sword\<lparr>DefaultType := '' Skill ''\<rparr>)
      (ResolveAttributeCurrent sample_entity '' Skill '') = 120000"
    by code_simp
  show ?thesis
    using DefaultTypeIsSkillBased_iff [of sample_env "'' Skill ''"
        "sample_sword\<lparr>DefaultType := '' Skill ''\<rparr>" sample_entity "[]" "[]" False Map.empty
        False]
      DefaultTypeIsSkillBased_iff [of sample_env "''PARRY''" sample_sword sample_entity "[]"
        "[]" False Map.empty False]
      DefaultTypeIsSkillBased_iff [of sample_env "''dodge''" sample_sword sample_entity "[]"
        "[]" False Map.empty False]
      lower raw skill attr
    by (simp add: sample_env_def sample_entity_def)
qed

end
